theory Spec2Isabelle
  imports Complex_Main
begin

section \<open>NumPy double-precision values\<close>

text \<open>
  The surface computes with NumPy \<open>float64\<close> arrays. A value is modelled as a real number
  or one of the three IEEE 754 special values. Arithmetic on finite values is exact
  (overflow and the sign of zero are not modelled, and rounding only by the operations of
  the section on double-precision rounding below); the special values follow
  IEEE 754 as NumPy applies it: a division by zero gives an infinity or not-a-number
  (with a RuntimeWarning) instead of raising, the square root of a negative number is
  not-a-number, and every comparison with not-a-number is false.
\<close>

datatype npfloat = Fin real | PInf | NInf | NaN

fun np_neg :: "npfloat \<Rightarrow> npfloat" where
  "np_neg (Fin a) = Fin (- a)"
| "np_neg PInf = NInf"
| "np_neg NInf = PInf"
| "np_neg NaN = NaN"

fun np_add :: "npfloat \<Rightarrow> npfloat \<Rightarrow> npfloat" where
  "np_add NaN _ = NaN"
| "np_add _ NaN = NaN"
| "np_add (Fin a) (Fin b) = Fin (a + b)"
| "np_add PInf NInf = NaN"
| "np_add NInf PInf = NaN"
| "np_add PInf _ = PInf"
| "np_add NInf _ = NInf"
| "np_add (Fin a) PInf = PInf"
| "np_add (Fin a) NInf = NInf"

definition np_sub :: "npfloat \<Rightarrow> npfloat \<Rightarrow> npfloat" where
  "np_sub a b = np_add a (np_neg b)"

definition signed_inf :: "real \<Rightarrow> npfloat" where
  \<comment> \<open>the product of an infinity with a finite factor of the given sign\<close>
  "signed_inf a = (if a = 0 then NaN else if 0 < a then PInf else NInf)"

fun np_mul :: "npfloat \<Rightarrow> npfloat \<Rightarrow> npfloat" where
  "np_mul NaN _ = NaN"
| "np_mul _ NaN = NaN"
| "np_mul (Fin a) (Fin b) = Fin (a * b)"
| "np_mul (Fin a) PInf = signed_inf a"
| "np_mul (Fin a) NInf = signed_inf (- a)"
| "np_mul PInf (Fin b) = signed_inf b"
| "np_mul NInf (Fin b) = signed_inf (- b)"
| "np_mul PInf PInf = PInf"
| "np_mul NInf NInf = PInf"
| "np_mul PInf NInf = NInf"
| "np_mul NInf PInf = NInf"

fun np_div :: "npfloat \<Rightarrow> npfloat \<Rightarrow> npfloat" where
  "np_div NaN _ = NaN"
| "np_div _ NaN = NaN"
| "np_div (Fin a) (Fin b) = (if b = 0 then signed_inf a else Fin (a / b))"
| "np_div (Fin a) PInf = Fin 0"
| "np_div (Fin a) NInf = Fin 0"
| "np_div PInf (Fin b) = (if 0 \<le> b then PInf else NInf)"
| "np_div NInf (Fin b) = (if 0 \<le> b then NInf else PInf)"
| "np_div PInf PInf = NaN"
| "np_div PInf NInf = NaN"
| "np_div NInf PInf = NaN"
| "np_div NInf NInf = NaN"

definition np_sq :: "npfloat \<Rightarrow> npfloat" where
  \<comment> \<open>\<open>x**2\<close>\<close>
  "np_sq x = np_mul x x"

fun np_sqrt :: "npfloat \<Rightarrow> npfloat" where
  "np_sqrt (Fin a) = (if a < 0 then NaN else Fin (sqrt a))"
| "np_sqrt PInf = PInf"
| "np_sqrt NInf = NaN"
| "np_sqrt NaN = NaN"

fun np_log :: "npfloat \<Rightarrow> npfloat" where
  "np_log (Fin a) = (if a < 0 then NaN else if a = 0 then NInf else Fin (ln a))"
| "np_log PInf = PInf"
| "np_log NInf = NaN"
| "np_log NaN = NaN"

fun np_lt :: "npfloat \<Rightarrow> npfloat \<Rightarrow> bool" where
  "np_lt NaN _ = False"
| "np_lt _ NaN = False"
| "np_lt (Fin a) (Fin b) = (a < b)"
| "np_lt NInf NInf = False"
| "np_lt NInf _ = True"
| "np_lt PInf _ = False"
| "np_lt (Fin a) PInf = True"
| "np_lt (Fin a) NInf = False"

fun np_eq :: "npfloat \<Rightarrow> npfloat \<Rightarrow> bool" where
  "np_eq NaN _ = False"
| "np_eq _ NaN = False"
| "np_eq a b = (a = b)"

definition np_ne :: "npfloat \<Rightarrow> npfloat \<Rightarrow> bool" where
  "np_ne a b = (\<not> np_eq a b)"


section \<open>Errors\<close>

text \<open>
  Every exception the modelled code raises is a value of \<open>error\<close>; a function that may
  raise returns \<open>error + 'a\<close> with \<open>Inl\<close> for the exception.
\<close>

datatype error =
    AssertionError
  | NameError
    \<comment> \<open>line 262 evaluates the undefined name \<open>ValueErwarnings\<close>\<close>
  | NegativeVariance
    \<comment> \<open>\<open>ValueError("Negative value encountered under square root.")\<close>\<close>
  | PoorHestonFit npfloat int
    \<comment> \<open>\<open>ValueError('SSE is a large value, ', round(SSE,4), ' heston fit at ', date, ...)\<close>\<close>
  | EmptySequence
    \<comment> \<open>\<open>ValueError\<close> of \<open>min\<close> on an empty index\<close>
  | KeysNotSorted
    \<comment> \<open>\<open>ValueError\<close> of \<open>pd.merge_asof\<close> when a join key is not sorted\<close>
  | ShapeMismatch
    \<comment> \<open>\<open>ValueError\<close> of a NumPy masked assignment with the wrong number of values\<close>
  | KeyError
  | TypeError
  | IndexError

section \<open>Arrays\<close>

text \<open>
  An array of shape \<open>(n, 1)\<close> (one value per date) is a list, an array of shape
  \<open>(n, k)\<close> (one row per date, one column per delta bucket) is a list of rows. The
  combinators below are NumPy's elementwise operations with broadcasting for exactly these
  shapes; the operands are taken to have matching \<open>n\<close> and \<open>k\<close>, as they have at every
  call in the source.
\<close>

type_synonym column = "npfloat list"
type_synonym matrix = "npfloat list list"

definition col_col :: "(npfloat \<Rightarrow> npfloat \<Rightarrow> 'a) \<Rightarrow> column \<Rightarrow> column \<Rightarrow> 'a list" where
  "col_col f a b = map2 f a b"

definition mat_col :: "(npfloat \<Rightarrow> npfloat \<Rightarrow> npfloat) \<Rightarrow> matrix \<Rightarrow> column \<Rightarrow> matrix" where
  "mat_col f M c = map2 (\<lambda>row x. map (\<lambda>y. f y x) row) M c"

definition mat_mat :: "(npfloat \<Rightarrow> npfloat \<Rightarrow> npfloat) \<Rightarrow> matrix \<Rightarrow> matrix \<Rightarrow> matrix" where
  "mat_mat f A B = map2 (map2 f) A B"

definition mat_map :: "(npfloat \<Rightarrow> npfloat) \<Rightarrow> matrix \<Rightarrow> matrix" where
  "mat_map f A = map (map f) A"

definition col_any :: "(npfloat \<Rightarrow> bool) \<Rightarrow> column \<Rightarrow> bool" where
  "col_any p c = list_ex p c"

definition mat_any :: "(npfloat \<Rightarrow> bool) \<Rightarrow> matrix \<Rightarrow> bool" where
  "mat_any p A = list_ex (list_ex p) A"

definition np_where :: "bool list \<Rightarrow> matrix \<Rightarrow> matrix \<Rightarrow> matrix" where
  \<comment> \<open>\<open>np.where(mask, A, B)\<close> with a mask of shape \<open>(n, 1)\<close>\<close>
  "np_where msk A B = map2 (\<lambda>m (a, b). if m then a else b) msk (zip A B)"

section \<open>Forward volatility and flat-forward interpolation\<close>

text \<open>
  \<open>forward_volatility\<close> (lines 239-268), on NumPy arrays, as both of its callers (lines
  289 and 530) pass them. When some \<open>tau\<close> is zero the source only calls
  \<open>warnings.warn\<close> and goes on to lines 264-268; \<open>forward_volatility_warns\<close> says
  whether that warning is issued. The \<open>elif\<close> branch is reached only when no \<open>tau\<close> is
  zero.
\<close>

definition forward_volatility_warns :: "column \<Rightarrow> column \<Rightarrow> bool" where
  "forward_volatility_warns t1 t2 = col_any (\<lambda>x. np_eq x (Fin 0)) (col_col np_sub t2 t1)"

definition forward_variance :: "column \<Rightarrow> matrix \<Rightarrow> column \<Rightarrow> matrix \<Rightarrow> matrix" where
  \<comment> \<open>line 264, the array \<open>result\<close>\<close>
  "forward_variance t1 \<sigma>_t1 t2 \<sigma>_t2 =
     mat_col np_div
       (mat_mat np_sub (mat_col np_mul (mat_map np_sq \<sigma>_t2) t2)
                       (mat_col np_mul (mat_map np_sq \<sigma>_t1) t1))
       (col_col np_sub t2 t1)"

definition forward_volatility :: "column \<Rightarrow> matrix \<Rightarrow> column \<Rightarrow> matrix \<Rightarrow> error + matrix" where
  "forward_volatility t1 \<sigma>_t1 t2 \<sigma>_t2 =
     (let tau = col_col np_sub t2 t1;
          lines_264_268 =
            (let result = forward_variance t1 \<sigma>_t1 t2 \<sigma>_t2 in
             if mat_any (\<lambda>x. np_lt x (Fin 0)) result then Inl NegativeVariance
             else Inr (mat_map np_sqrt result))
      in if col_any (\<lambda>x. np_eq x (Fin 0)) tau then lines_264_268
         else if col_any (\<lambda>x. np_lt x (Fin 0)) tau then Inl NameError
         else lines_264_268)"

text \<open>\<open>flat_forward_interp\<close> (lines 270-290).\<close>

definition flat_forward_interp ::
  "column \<Rightarrow> matrix \<Rightarrow> column \<Rightarrow> matrix \<Rightarrow> column \<Rightarrow> error + matrix" where
  "flat_forward_interp t1 \<sigma>_t1 t2 \<sigma>_t2 t =
     (case forward_volatility t1 \<sigma>_t1 t2 \<sigma>_t2 of
        Inl e \<Rightarrow> Inl e
      | Inr \<sigma>_t12 \<Rightarrow>
          Inr (mat_map np_sqrt
                 (mat_col np_div
                    (mat_mat np_add (mat_col np_mul (mat_map np_sq \<sigma>_t1) t1)
                                    (mat_col np_mul (mat_map np_sq \<sigma>_t12) (col_col np_sub t t1)))
                    t)))"

text \<open>
  One entry of the arrays above: \<open>fv_cell\<close> is the entry of \<open>result\<close> (line 264) from the
  entries of the four operands, \<open>ffi_cell\<close> the entry of the array line 290 returns, from
  the entries of \<open>t1\<close>, \<open>\<sigma>_t1\<close>, \<open>\<sigma>_t12\<close> and \<open>t\<close>.
\<close>

definition fv_cell :: "npfloat \<Rightarrow> npfloat \<Rightarrow> npfloat \<Rightarrow> npfloat \<Rightarrow> npfloat" where
  "fv_cell t1 s1 t2 s2 =
     np_div (np_sub (np_mul (np_sq s2) t2) (np_mul (np_sq s1) t1)) (np_sub t2 t1)"

definition ffi_cell :: "npfloat \<Rightarrow> npfloat \<Rightarrow> npfloat \<Rightarrow> npfloat \<Rightarrow> npfloat" where
  "ffi_cell t1 s1 s12 t =
     np_sqrt (np_div (np_add (np_mul (np_sq s1) t1) (np_mul (np_sq s12) (np_sub t t1))) t)"




section \<open>Double-precision rounding\<close>

text \<open>
  The arithmetic of the previous sections is exact on finite values. Where a property
  depends on the rounding of \<open>float64\<close>, the operations below are used instead: each one
  is the exact operation followed by \<open>round64\<close>, the rounding of IEEE 754 binary64 to 53
  significant bits, to nearest, ties to even. The exponent is unbounded (overflow to
  infinity and the subnormal numbers are not modelled), so \<open>round64\<close> is NumPy's rounding
  for every result whose magnitude lies between the smallest normal double and the largest
  double.
  Comparisons do not round.
\<close>

definition round_half_even :: "real \<Rightarrow> int" where
  "round_half_even x =
     (let f = \<lfloor>x\<rfloor> in
      if x - of_int f < 1 / 2 then f
      else if 1 / 2 < x - of_int f then f + 1
      else if even f then f else f + 1)"

definition round64 :: "real \<Rightarrow> real" where
  \<comment> \<open>\<open>e\<close> is the exponent of the last of the 53 significant bits of \<open>x\<close>\<close>
  "round64 x =
     (if x = 0 then 0
      else let e = \<lfloor>log 2 \<bar>x\<bar>\<rfloor> - 52
           in of_int (round_half_even (x / 2 powr of_int e)) * 2 powr of_int e)"














section \<open>The pillar table and the daily grid\<close>

text \<open>
  A date is a day number. A row of the pillar table \<open>\<sigma>_pillar\<close> is indexed by its tenor
  date and carries the year fraction and the three quoted volatilities that line 189 names
  in \<open>cols\<close>; the other columns of the table take no part in the modelled operations.
\<close>

record pillar =
  tenor_date :: int
  tenor_years :: real
  \<sigma>_25\<Delta>put :: npfloat
  \<sigma>_atm\<Delta>neutral :: npfloat
  \<sigma>_25\<Delta>call :: npfloat

datatype \<Delta>_convention =
  regular_spot_\<Delta> | regular_forward_\<Delta> | premium_adjusted_spot_\<Delta> | premium_adjusted_forward_\<Delta>

text \<open>A row of \<open>\<Delta>_\<sigma>_daily\<close>; \<open>daily_\<sigma>\<close> holds the columns of \<open>cols\<close> in their order.\<close>

record daily_row =
  daily_tenor_date :: int
  daily_tenor_years :: real
  daily_\<sigma> :: "npfloat list"
  daily_\<Delta>_convention :: \<Delta>_convention
  foreign_ccy_continuously_compounded_zero_rate :: npfloat
  domestic_ccy_continuously_compounded_zero_rate :: npfloat
  fx_forward_rate :: npfloat

text \<open>
  \<open>pd.merge_asof\<close> on the tenor date against the pillar table, for one date of the left
  table: \<open>backward\<close> takes the last pillar at or before the date, \<open>forward\<close> the first one
  at or after it (exact matches allowed); with no such pillar the joined columns are
  not-a-number.
\<close>

definition merge_asof_backward :: "pillar list \<Rightarrow> int \<Rightarrow> pillar option" where
  "merge_asof_backward ps d =
     (case filter (\<lambda>p. tenor_date p \<le> d) ps of [] \<Rightarrow> None | q # qs \<Rightarrow> Some (last (q # qs)))"

definition merge_asof_forward :: "pillar list \<Rightarrow> int \<Rightarrow> pillar option" where
  "merge_asof_forward ps d =
     (case filter (\<lambda>p. d \<le> tenor_date p) ps of [] \<Rightarrow> None | q # qs \<Rightarrow> Some q)"

definition tenor_years_pillar :: "pillar option \<Rightarrow> npfloat" where
  "tenor_years_pillar r = (case r of None \<Rightarrow> NaN | Some p \<Rightarrow> Fin (tenor_years p))"

definition cols :: "pillar option \<Rightarrow> npfloat list" where
  "cols r = (case r of None \<Rightarrow> [NaN, NaN, NaN]
             | Some p \<Rightarrow> [\<sigma>_25\<Delta>put p, \<sigma>_atm\<Delta>neutral p, \<sigma>_25\<Delta>call p])"

text \<open>
  The interpolation of the term structure in \<open>__post_init__\<close> (lines 179-204), given the
  day counter's \<open>year_fraction(curve_date, .)\<close>. \<open>sort_values\<close> is a stable sort here;
  \<open>merge_asof\<close> raises when the left keys (the dates, after sorting by year fraction) or
  the right keys (the pillar dates) are not sorted. The year fractions \<open>t\<close> are read in
  date order (line 194), the brackets in the order of the sorted left table.

  \<open>daily_dates\<close> is line 179, \<open>brackets\<close> are the five arrays of lines 192-199 that
  line 203 passes to \<open>flat_forward_interp\<close>, for every row, before \<open>np.where\<close> selects.
  The result of \<open>interp_daily\<close> is the list of rows (date, year fraction, the three
  volatilities).
\<close>

definition daily_dates :: "pillar list \<Rightarrow> int list" where
  "daily_dates ps = [Min (set (map tenor_date ps)) .. Max (set (map tenor_date ps))]"

definition brackets ::
  "(int \<Rightarrow> real) \<Rightarrow> pillar list \<Rightarrow> column \<times> matrix \<times> column \<times> matrix \<times> column" where
  "brackets yf ps =
     (let left = sort_key yf (daily_dates ps);
          df_lower_pillar = map (merge_asof_backward ps) left;
          df_upper_pillar = map (merge_asof_forward ps) left
      in (map tenor_years_pillar df_lower_pillar, map cols df_lower_pillar,
          map tenor_years_pillar df_upper_pillar, map cols df_upper_pillar,
          map (\<lambda>d. Fin (yf d)) (daily_dates ps)))"

definition interp_daily ::
  "(int \<Rightarrow> real) \<Rightarrow> pillar list \<Rightarrow> error + (int \<times> real \<times> npfloat list) list" where
  "interp_daily yf ps =
     (if ps = [] then Inl EmptySequence
      else if \<not> sorted (sort_key yf (daily_dates ps)) \<or> \<not> sorted (map tenor_date ps)
      then Inl KeysNotSorted
      else
        case brackets yf ps of (t1, \<sigma>_t1, t2, \<sigma>_t2, t) \<Rightarrow>
          let msk = col_col np_ne t1 t2 in
          (case flat_forward_interp t1 \<sigma>_t1 t2 \<sigma>_t2 t of
             Inl e \<Rightarrow> Inl e
           | Inr A \<Rightarrow>
               Inr (zip (daily_dates ps)
                      (zip (map yf (daily_dates ps)) (np_where msk A \<sigma>_t1)))))"

section \<open>The surface and its collaborators\<close>

datatype smile_method =
    univariate_spline
  | cubic_spline
  | heston_analytical_1993
  | heston_carr_madan_gauss_kronrod_quadrature
  | heston_carr_madan_fft_w_simpsons
  | vanna_volga
  | sabr
  | svi_sabr

definition is_heston :: "smile_method \<Rightarrow> bool" where
  \<comment> \<open>\<open>smile_interpolation_method[:6] == 'heston'\<close>\<close>
  "is_heston m = (m = heston_analytical_1993 \<or> m = heston_carr_madan_gauss_kronrod_quadrature
                  \<or> m = heston_carr_madan_fft_w_simpsons)"

text \<open>The tuple a Heston calibration returns and the cache stores.\<close>

record heston_params =
  v0 :: npfloat
  vv :: npfloat
  kappa :: npfloat
  theta :: npfloat
  rho :: npfloat
  lambda' :: npfloat
  IV :: "npfloat list"
  SSE :: npfloat

text \<open>
  A value of the cache \<open>K_\<sigma>_daily_smile_func\<close>: a spline object, given by the strikes
  and volatilities it was built from, or the tuple of a Heston calibration.
\<close>

datatype smile_func =
    InterpolatedUnivariateSpline "npfloat list" "npfloat list"
  | CubicSpline "npfloat list" "npfloat list"
  | HestonFit heston_params

text \<open>
  The functions of other modules that the surface calls are parameters of the model.
  They are taken to return normally and to have no effect on the surface. The zero curves
  and the forward-curve helper are applied date by date.
\<close>

record collaborators =
  year_fraction :: "int \<Rightarrow> real"
  foreign_zero_rate :: "int \<Rightarrow> npfloat"
  domestic_zero_rate :: "int \<Rightarrow> npfloat"
  interp_fx_forward_curve :: "(int \<times> npfloat) list \<Rightarrow> bool \<Rightarrow> int \<Rightarrow> npfloat"
  gk_solve_strike ::
    "npfloat \<Rightarrow> real \<Rightarrow> npfloat \<Rightarrow> npfloat \<Rightarrow> npfloat list \<Rightarrow> real list \<Rightarrow> \<Delta>_convention
     \<Rightarrow> npfloat \<Rightarrow> npfloat list"
  spline_call :: "smile_func \<Rightarrow> npfloat \<Rightarrow> npfloat"
  heston_fit_vanilla_fx_smile ::
    "real list \<Rightarrow> \<Delta>_convention \<Rightarrow> npfloat list \<Rightarrow> npfloat \<Rightarrow> npfloat \<Rightarrow> npfloat \<Rightarrow> real
     \<Rightarrow> real list \<Rightarrow> smile_method \<Rightarrow> heston_params"
  heston1993_price_fx_vanilla_european ::
    "npfloat \<Rightarrow> real \<Rightarrow> npfloat \<Rightarrow> npfloat \<Rightarrow> npfloat \<Rightarrow> npfloat
     \<Rightarrow> npfloat \<Rightarrow> npfloat \<Rightarrow> npfloat \<Rightarrow> npfloat \<Rightarrow> npfloat \<Rightarrow> npfloat \<Rightarrow> npfloat"
  heston_carr_madan_fx_vanilla_european ::
    "npfloat \<Rightarrow> real \<Rightarrow> npfloat \<Rightarrow> npfloat \<Rightarrow> npfloat \<Rightarrow> npfloat
     \<Rightarrow> npfloat \<Rightarrow> npfloat \<Rightarrow> npfloat \<Rightarrow> npfloat \<Rightarrow> npfloat \<Rightarrow> nat \<Rightarrow> npfloat"
  gk_solve_implied_\<sigma> ::
    "npfloat \<Rightarrow> real \<Rightarrow> npfloat \<Rightarrow> npfloat \<Rightarrow> npfloat \<Rightarrow> npfloat \<Rightarrow> npfloat \<Rightarrow> npfloat \<Rightarrow> npfloat"
  gk_price ::
    "npfloat \<Rightarrow> real list \<Rightarrow> npfloat list \<Rightarrow> npfloat list \<Rightarrow> npfloat list \<Rightarrow> npfloat list
     \<Rightarrow> npfloat list \<Rightarrow> npfloat list \<Rightarrow> bool \<Rightarrow> bool \<Rightarrow> (string \<times> npfloat list) list"
  generate_rand_nbs :: "nat \<Rightarrow> nat option \<Rightarrow> bool option \<Rightarrow> npfloat list list"
  simulate_gbm_path ::
    "npfloat \<Rightarrow> npfloat list \<Rightarrow> npfloat list \<Rightarrow> npfloat list \<Rightarrow> npfloat list list
     \<Rightarrow> npfloat list list"

text \<open>
  The fields of the class. The model covers a surface constructed with a pillar table, so
  \<open>\<sigma>_pillar\<close> and \<open>\<Delta>_\<sigma>_daily\<close> are tables, not \<open>None\<close>. The day counter and the two zero
  curves are among the collaborators.
\<close>

record FXVolatilitySurface =
  curve_date :: int
  curve_ccy :: string
  fx_forward_curve :: "(int \<times> npfloat) list"
  spot_date :: int
  fx_spot_rate :: npfloat
  domestic_ccy :: string
  foreign_ccy :: string
  \<sigma>_pillar :: "pillar list"
  K_pillar :: "npfloat list list"
  \<Delta>_\<sigma>_daily :: "daily_row list"
  smile_interpolation_method :: "smile_method option"
  K_\<sigma>_daily_smile_func :: "int \<rightharpoonup> smile_func"

text \<open>
  Lines 179-208: the daily grid \<open>\<Delta>_\<sigma>_daily\<close> is the interpolated term structure with the
  delta convention and the rates of \<open>__interp_daily_FXF_and_IR_rates\<close> attached.
\<close>

definition build_\<Delta>_\<sigma>_daily ::
  "collaborators \<Rightarrow> (int \<times> npfloat) list \<Rightarrow> pillar list \<Rightarrow> error + daily_row list" where
  "build_\<Delta>_\<sigma>_daily c curve ps =
     (case interp_daily (year_fraction c) ps of
        Inl e \<Rightarrow> Inl e
      | Inr df_interp \<Rightarrow>
          Inr (map (\<lambda>(d, ty, vols).
                 \<lparr>daily_tenor_date = d, daily_tenor_years = ty, daily_\<sigma> = vols,
                  daily_\<Delta>_convention = regular_forward_\<Delta>,
                  foreign_ccy_continuously_compounded_zero_rate = foreign_zero_rate c d,
                  domestic_ccy_continuously_compounded_zero_rate = domestic_zero_rate c d,
                  fx_forward_rate = interp_fx_forward_curve c curve True d\<rparr>) df_interp))"

definition loc :: "daily_row list \<Rightarrow> int \<Rightarrow> daily_row option" where
  \<comment> \<open>\<open>df.loc[date]\<close> on the date index; \<open>None\<close> stands for the \<open>KeyError\<close>\<close>
  "loc df d = find (\<lambda>r. daily_tenor_date r = d) df"

section \<open>Implied-volatility queries\<close>

text \<open>
  The state of a surface in the model is the record together with the list of the dates
  at which a smile fit has been computed so far (a strike solve and spline construction,
  or a Heston calibration), in the order of the computations. The list is not a field of
  the class; it records the calls of the fitting collaborators.
\<close>

type_synonym state = "FXVolatilitySurface \<times> int list"

text \<open>
  The body of the \<open>if date not in ...\<close> block (lines 397-426) for one date: the new
  cache entry, \<open>None\<close> when no branch of the method dispatch applies, or the exception.
  The three columns give \<open>cp = [-1, 1, 1]\<close> and \<open>\<Delta> = [-0.25, 0.5, 0.25]\<close>.
\<close>

definition fit_smile ::
  "collaborators \<Rightarrow> FXVolatilitySurface \<Rightarrow> daily_row \<Rightarrow> error + smile_func option" where
  "fit_smile c s row =
     (let S = fx_spot_rate s;
          r_f = foreign_ccy_continuously_compounded_zero_rate row;
          r_d = domestic_ccy_continuously_compounded_zero_rate row;
          tau = daily_tenor_years row;
          \<Delta>_conv = daily_\<Delta>_convention row;
          F = fx_forward_rate row;
          cp = [- 1, 1, 1];
          \<Delta> = [- (25 / 100), 5 / 10, 25 / 100];
          \<sigma> = daily_\<sigma> row
      in case smile_interpolation_method s of
           None \<Rightarrow> Inl TypeError
         | Some m \<Rightarrow>
             if m = univariate_spline then
               Inr (Some (InterpolatedUnivariateSpline
                            (gk_solve_strike c S tau r_f r_d \<sigma> \<Delta> \<Delta>_conv F) \<sigma>))
             else if m = cubic_spline then
               Inr (Some (CubicSpline (gk_solve_strike c S tau r_f r_d \<sigma> \<Delta> \<Delta>_conv F) \<sigma>))
             else if is_heston m then
               let fit = heston_fit_vanilla_fx_smile c \<Delta> \<Delta>_conv \<sigma> S r_f r_d tau cp m in
               if np_lt (SSE fit) (Fin (1 / 1000)) then Inr (Some (HestonFit fit))
               else Inl (PoorHestonFit (SSE fit) (daily_tenor_date row))
             else Inr None)"

definition fit_computed :: "FXVolatilitySurface \<Rightarrow> bool" where
  \<comment> \<open>whether \<open>fit_smile\<close> calls a fitting collaborator under the surface's method\<close>
  "fit_computed s =
     (case smile_interpolation_method s of
        None \<Rightarrow> False
      | Some m \<Rightarrow> m = univariate_spline \<or> m = cubic_spline \<or> is_heston m)"

text \<open>
  The loop over the unique dates (lines 393-426). An exception leaves the entries cached
  before it in place.
\<close>

fun fit_loop :: "collaborators \<Rightarrow> daily_row list \<Rightarrow> state \<Rightarrow> state \<times> error option" where
  "fit_loop c [] st = (st, None)"
| "fit_loop c (row # rows) (s, fits) =
     (let date = daily_tenor_date row in
      if K_\<sigma>_daily_smile_func s date \<noteq> None then fit_loop c rows (s, fits)
      else
        let fits' = (if fit_computed s then fits @ [date] else fits) in
        case fit_smile c s row of
          Inl e \<Rightarrow> ((s, fits'), Some e)
        | Inr None \<Rightarrow> fit_loop c rows (s, fits')
        | Inr (Some f) \<Rightarrow>
            fit_loop c rows
              (s\<lparr>K_\<sigma>_daily_smile_func := (K_\<sigma>_daily_smile_func s)(date \<mapsto> f)\<rparr>, fits'))"

text \<open>The body of the second loop (lines 429-453) for one row of \<open>df\<close>.\<close>

definition implied_\<sigma> ::
  "collaborators \<Rightarrow> FXVolatilitySurface \<Rightarrow> daily_row \<times> npfloat \<times> npfloat
   \<Rightarrow> error + npfloat option" where
  "implied_\<sigma> c s = (\<lambda>(row, K_target, call_put).
     let date = daily_tenor_date row in
     case smile_interpolation_method s of
       None \<Rightarrow> Inl TypeError
     | Some m \<Rightarrow>
         if m = univariate_spline \<or> m = cubic_spline then
           (case K_\<sigma>_daily_smile_func s date of
              None \<Rightarrow> Inl KeyError
            | Some (HestonFit h) \<Rightarrow> Inl TypeError
            | Some f \<Rightarrow> Inr (Some (spline_call c f K_target)))
         else if is_heston m then
           (let S = fx_spot_rate s;
                r_f = foreign_ccy_continuously_compounded_zero_rate row;
                r_d = domestic_ccy_continuously_compounded_zero_rate row;
                tau = daily_tenor_years row
            in case K_\<sigma>_daily_smile_func s date of
                 None \<Rightarrow> Inl KeyError
               | Some (HestonFit h) \<Rightarrow>
                   let X =
                     (if m = heston_analytical_1993 then
                        heston1993_price_fx_vanilla_european c S tau r_f r_d call_put K_target
                          (v0 h) (vv h) (kappa h) (theta h) (rho h) (lambda' h)
                      else if m = heston_carr_madan_gauss_kronrod_quadrature then
                        heston_carr_madan_fx_vanilla_european c S tau r_f r_d call_put K_target
                          (v0 h) (vv h) (kappa h) (theta h) (rho h) 0
                      else
                        heston_carr_madan_fx_vanilla_european c S tau r_f r_d call_put K_target
                          (v0 h) (vv h) (kappa h) (theta h) (rho h) 1)
                   in Inr (Some (gk_solve_implied_\<sigma> c S tau r_f r_d call_put K_target X (v0 h)))
               | Some f \<Rightarrow> Inl TypeError)
         else Inr None)"

fun query_loop ::
  "collaborators \<Rightarrow> FXVolatilitySurface \<Rightarrow> (daily_row \<times> npfloat \<times> npfloat) list
   \<Rightarrow> error + npfloat list" where
  "query_loop c s [] = Inr []"
| "query_loop c s (q # qs) =
     (case implied_\<sigma> c s q of
        Inl e \<Rightarrow> Inl e
      | Inr r \<Rightarrow>
          (case query_loop c s qs of
             Inl e \<Rightarrow> Inl e
           | Inr rs \<Rightarrow> Inr ((case r of None \<Rightarrow> [] | Some v \<Rightarrow> [v]) @ rs)))"

text \<open>
  \<open>interp_\<sigma>_surface\<close> (lines 355-455). \<open>dates\<close>, \<open>K\<close> and \<open>cp\<close> are one-dimensional;
  each unique date is visited once, in the order \<open>remdups\<close> gives (the iteration order of
  the Python set is not specified).
\<close>

definition interp_\<sigma>_surface ::
  "collaborators \<Rightarrow> state \<Rightarrow> int list \<Rightarrow> npfloat list \<Rightarrow> npfloat list
   \<Rightarrow> state \<times> (error + npfloat list)" where
  "interp_\<sigma>_surface c st dates K cp =
     (if length dates \<noteq> length K \<or> length dates \<noteq> length cp then (st, Inl AssertionError)
      else
        case those (map (loc (\<Delta>_\<sigma>_daily (fst st))) dates) of
          None \<Rightarrow> (st, Inl KeyError)
        | Some df \<Rightarrow>
            (case those (map (loc (\<Delta>_\<sigma>_daily (fst st))) (remdups dates)) of
               None \<Rightarrow> (st, Inl KeyError)
             | Some df_unique_dates \<Rightarrow>
                 (case fit_loop c df_unique_dates st of
                    (st', Some e) \<Rightarrow> (st', Inl e)
                  | (st', None) \<Rightarrow> (st', query_loop c (fst st') (zip df (zip K cp))))))"

text \<open>
  A lifetime of a surface, as far as the cache is concerned: a sequence of calls of
  \<open>interp_\<sigma>_surface\<close> on the same object, each with its three arrays. A call that
  raises leaves the state it reached, and the caller goes on with the next query.
\<close>

fun run_queries ::
  "collaborators \<Rightarrow> state \<Rightarrow> (int list \<times> npfloat list \<times> npfloat list) list \<Rightarrow> state" where
  "run_queries c st [] = st"
| "run_queries c st ((dates, K, cp) # qs) =
     run_queries c (fst (interp_\<sigma>_surface c st dates K cp)) qs"

text \<open>
  The invariant of the fit loop over such a lifetime: a cached date has been fitted exactly
  once, and a date that has been fitted and is not cached is one whose fit raises.
\<close>

definition fit_invariant :: "collaborators \<Rightarrow> state \<Rightarrow> bool" where
  "fit_invariant c st =
     (case st of (s, fits) \<Rightarrow>
        (\<forall>d. K_\<sigma>_daily_smile_func s d \<noteq> None \<longrightarrow> count_list fits d = 1)
        \<and> (\<forall>d\<in>set fits. K_\<sigma>_daily_smile_func s d = None \<longrightarrow>
              (\<exists>row e. loc (\<Delta>_\<sigma>_daily s) d = Some row \<and> fit_smile c s row = Inl e)))"

section \<open>Pricing\<close>

definition in_pillar_range :: "pillar list \<Rightarrow> int \<Rightarrow> bool" where
  \<comment> \<open>one entry of \<open>mask\<close> (lines 470 and 521)\<close>
  "in_pillar_range ps d =
     (ps \<noteq> [] \<and> Min (set (map tenor_date ps)) \<le> d \<and> d \<le> Max (set (map tenor_date ps)))"

text \<open>
  \<open>\<sigma> = np.full(shape, np.nan); \<sigma>[mask] = values\<close>, for as many values as the mask has
  true entries.
\<close>

fun masked_assign :: "bool list \<Rightarrow> npfloat list \<Rightarrow> npfloat list" where
  "masked_assign [] vs = []"
| "masked_assign (False # ms) vs = NaN # masked_assign ms vs"
| "masked_assign (True # ms) [] = NaN # masked_assign ms []"
| "masked_assign (True # ms) (v # vs) = v # masked_assign ms vs"

record price_results =
  gk_results :: "(string \<times> npfloat list) list"
  market_data_inputs :: "npfloat list \<times> npfloat list \<times> npfloat list \<times> npfloat list"

text \<open>
  \<open>price_fx_vanilla_european\<close> (lines 457-494). Line 473 passes the masked dates with the
  whole of \<open>K\<close> and \<open>cp\<close>. A masked assignment of a number of values other than the
  number of true entries raises.
\<close>

definition price_fx_vanilla_european ::
  "collaborators \<Rightarrow> state \<Rightarrow> int list \<Rightarrow> npfloat list \<Rightarrow> npfloat list \<Rightarrow> bool \<Rightarrow> bool
   \<Rightarrow> state \<times> (error + price_results)" where
  "price_fx_vanilla_european c st expiry_datetimeindex K cp analytical_greeks_flag
       intrinsic_time_split_flag =
     (if length expiry_datetimeindex \<noteq> length K \<or> length expiry_datetimeindex \<noteq> length cp
      then (st, Inl AssertionError)
      else
        let s = fst st;
            msk = map (in_pillar_range (\<sigma>_pillar s)) expiry_datetimeindex;
            (st', r) =
              (if list_ex id msk then
                 (case interp_\<sigma>_surface c st
                         (filter (in_pillar_range (\<sigma>_pillar s)) expiry_datetimeindex) K cp of
                    (st', Inl e) \<Rightarrow> (st', Inl e)
                  | (st', Inr vals) \<Rightarrow>
                      if length vals \<noteq> length (filter id msk) then (st', Inl ShapeMismatch)
                      else (st', Inr (masked_assign msk vals)))
               else (st, Inr (replicate (length expiry_datetimeindex) NaN)))
        in case r of
             Inl e \<Rightarrow> (st', Inl e)
           | Inr \<sigma> \<Rightarrow>
               let r_f = map (foreign_zero_rate c) expiry_datetimeindex;
                   r_d = map (domestic_zero_rate c) expiry_datetimeindex;
                   F = map (interp_fx_forward_curve c (fx_forward_curve s) True)
                         expiry_datetimeindex;
                   results =
                     gk_price c (fx_spot_rate s) (map (year_fraction c) expiry_datetimeindex)
                       r_f r_d cp K \<sigma> F analytical_greeks_flag intrinsic_time_split_flag
               in (st', Inr \<lparr>gk_results = results, market_data_inputs = (\<sigma>, r_f, r_d, F)\<rparr>))"

section \<open>Path simulation\<close>

record gbm_results =
  gbm_dates :: "int list"
  gbm_tau :: "npfloat list"
  gbm_dt :: "npfloat list"
  gbm_fx_forward_rates :: "npfloat list"
  gbm_drift :: "npfloat list"
  gbm_atm_volatility :: "npfloat list"
  gbm_forward_atm_volatility :: "npfloat list"
  fx_rate_simulation_paths :: "npfloat list list"

definition \<sigma>_atm_at :: "FXVolatilitySurface \<Rightarrow> int \<Rightarrow> npfloat option" where
  \<comment> \<open>one entry of \<open>\<sigma>_atm\<close> (lines 521-524); \<open>None\<close> stands for the \<open>KeyError\<close>\<close>
  "\<sigma>_atm_at s d =
     (if in_pillar_range (\<sigma>_pillar s) d then
        (case loc (\<Delta>_\<sigma>_daily s) d of
           None \<Rightarrow> None
         | Some row \<Rightarrow> if 1 < length (daily_\<sigma> row) then Some (daily_\<sigma> row ! 1) else None)
      else Some NaN)"

text \<open>
  \<open>simulate_fx_rate_path\<close> (lines 497-556). The one-dimensional arrays given to
  \<open>forward_volatility\<close> are matrices of one column here. With a \<open>method\<close> other than
  \<open>'geometric_brownian_motion'\<close> the function body ends without a \<open>return\<close>, so the call
  returns \<open>None\<close>.
\<close>

definition simulate_fx_rate_path ::
  "collaborators \<Rightarrow> FXVolatilitySurface \<Rightarrow> int list option \<Rightarrow> nat option \<Rightarrow> bool option
   \<Rightarrow> string \<Rightarrow> error + gbm_results option" where
  "simulate_fx_rate_path c s date_grid nb_of_simulations flag_apply_antithetic_variates method =
     (if method = ''geometric_brownian_motion'' then
       (let date_grid = (case date_grid of None \<Rightarrow> map tenor_date (\<sigma>_pillar s) | Some g \<Rightarrow> g) in
        if date_grid = [] then Inl IndexError
        else
          let tau = Fin 0 # map (\<lambda>d. Fin (year_fraction c d)) date_grid;
              dt = map2 np_sub (tl tau) (butlast tau);
              fx_forward_rates_t2 =
                map (interp_fx_forward_curve c (fx_forward_curve s) True) date_grid;
              fx_forward_rates_t1 = fx_spot_rate s # butlast fx_forward_rates_t2;
              period_drift =
                map2 np_div (map np_log (map2 np_div fx_forward_rates_t2 fx_forward_rates_t1)) dt
          in case those (map (\<sigma>_atm_at s) date_grid) of
               None \<Rightarrow> Inl KeyError
             | Some \<sigma>_atm \<Rightarrow>
                 (let t1 = butlast tau;
                      t2 = tl tau;
                      \<sigma>_atm_t1 = hd \<sigma>_atm # butlast \<sigma>_atm
                  in case forward_volatility t1 (map (\<lambda>x. [x]) \<sigma>_atm_t1)
                            t2 (map (\<lambda>x. [x]) \<sigma>_atm) of
                       Inl e \<Rightarrow> Inl e
                     | Inr M \<Rightarrow>
                         let \<sigma>_forward = (concat M)[0 := hd \<sigma>_atm];
                             rand_nbs = generate_rand_nbs c (length date_grid)
                                          nb_of_simulations flag_apply_antithetic_variates
                         in Inr (Some
                              \<lparr>gbm_dates = curve_date s # date_grid,
                               gbm_tau = tau,
                               gbm_dt = Fin 0 # dt,
                               gbm_fx_forward_rates = fx_spot_rate s # fx_forward_rates_t2,
                               gbm_drift = NaN # period_drift,
                               gbm_atm_volatility = hd \<sigma>_atm # \<sigma>_atm,
                               gbm_forward_atm_volatility = NaN # \<sigma>_forward,
                               fx_rate_simulation_paths =
                                 simulate_gbm_path c (fx_spot_rate s) period_drift \<sigma>_forward
                                   dt rand_nbs\<rparr>)))
      else Inr None)"

section \<open>A small surface for concrete evaluation\<close>

text \<open>
  Two pillars, two days apart, with a flat smile of 10 per cent, the three rows of their
  daily grid, and collaborators that return constants; the Heston calibration returns the
  sum of squared errors it is given here.
\<close>

definition demo_pillars :: "pillar list" where
  "demo_pillars =
     [\<lparr>tenor_date = 10, tenor_years = 10 / 360,
       \<sigma>_25\<Delta>put = Fin (1 / 10), \<sigma>_atm\<Delta>neutral = Fin (1 / 10), \<sigma>_25\<Delta>call = Fin (1 / 10)\<rparr>,
      \<lparr>tenor_date = 12, tenor_years = 12 / 360,
       \<sigma>_25\<Delta>put = Fin (1 / 10), \<sigma>_atm\<Delta>neutral = Fin (1 / 10), \<sigma>_25\<Delta>call = Fin (1 / 10)\<rparr>]"

text \<open>
  The same pillars with a front volatility of 50 per cent: the forward variance between
  them is negative.
\<close>

definition demo_pillars_arbitrage :: "pillar list" where
  "demo_pillars_arbitrage =
     [\<lparr>tenor_date = 10, tenor_years = 10 / 360,
       \<sigma>_25\<Delta>put = Fin (1 / 2), \<sigma>_atm\<Delta>neutral = Fin (1 / 2), \<sigma>_25\<Delta>call = Fin (1 / 2)\<rparr>,
      \<lparr>tenor_date = 12, tenor_years = 12 / 360,
       \<sigma>_25\<Delta>put = Fin (1 / 10), \<sigma>_atm\<Delta>neutral = Fin (1 / 10), \<sigma>_25\<Delta>call = Fin (1 / 10)\<rparr>]"

definition demo_row :: "int \<Rightarrow> daily_row" where
  "demo_row d =
     \<lparr>daily_tenor_date = d, daily_tenor_years = real_of_int d / 360,
      daily_\<sigma> = [Fin (1 / 10), Fin (1 / 10), Fin (1 / 10)],
      daily_\<Delta>_convention = regular_forward_\<Delta>,
      foreign_ccy_continuously_compounded_zero_rate = Fin (3 / 100),
      domestic_ccy_continuously_compounded_zero_rate = Fin (5 / 100),
      fx_forward_rate = Fin (66 / 100)\<rparr>"

definition demo_collaborators :: "npfloat \<Rightarrow> collaborators" where
  "demo_collaborators sse =
     \<lparr>year_fraction = (\<lambda>d. real_of_int d / 360),
      foreign_zero_rate = (\<lambda>d. Fin (3 / 100)),
      domestic_zero_rate = (\<lambda>d. Fin (5 / 100)),
      interp_fx_forward_curve = (\<lambda>curve flat d. Fin (66 / 100)),
      gk_solve_strike = (\<lambda>S tau r_f r_d \<sigma> \<Delta> conv F. [Fin (6 / 10), Fin (66 / 100), Fin (7 / 10)]),
      spline_call = (\<lambda>f K. Fin (1 / 10)),
      heston_fit_vanilla_fx_smile = (\<lambda>\<Delta> conv \<sigma> S r_f r_d tau cp m.
        \<lparr>v0 = Fin (1 / 100), vv = Fin (1 / 2), kappa = Fin 1, theta = Fin (1 / 100),
         rho = Fin 0, lambda' = Fin 0, IV = \<sigma>, SSE = sse\<rparr>),
      heston1993_price_fx_vanilla_european =
        (\<lambda>S tau r_f r_d cp K a b c d e f. Fin (1 / 100)),
      heston_carr_madan_fx_vanilla_european =
        (\<lambda>S tau r_f r_d cp K a b c d e i. Fin (1 / 100)),
      gk_solve_implied_\<sigma> = (\<lambda>S tau r_f r_d cp K X guess. Fin (1 / 10)),
      gk_price = (\<lambda>S tau r_f r_d cp K \<sigma> F a i. [(''option_value'', \<sigma>)]),
      generate_rand_nbs = (\<lambda>periods sims flag. [replicate periods (Fin 0)]),
      simulate_gbm_path = (\<lambda>S drift vol dt rand. [S # drift])\<rparr>"

definition demo_surface :: "smile_method option \<Rightarrow> FXVolatilitySurface" where
  "demo_surface m =
     \<lparr>curve_date = 0, curve_ccy = ''audusd'',
      fx_forward_curve = [(0, Fin (66 / 100)), (12, Fin (66 / 100))],
      spot_date = 2, fx_spot_rate = Fin (66 / 100),
      domestic_ccy = ''usd'', foreign_ccy = ''aud'',
      \<sigma>_pillar = demo_pillars,
      K_pillar = [],
      \<Delta>_\<sigma>_daily = [demo_row 10, demo_row 11, demo_row 12],
      smile_interpolation_method = m,
      K_\<sigma>_daily_smile_func = Map.empty\<rparr>"

section \<open>Properties\<close>

subsection \<open>Arrays, entry by entry\<close>

lemma forward_volatility_eq:
  "forward_volatility t1 \<sigma>_t1 t2 \<sigma>_t2 =
     (let tau = col_col np_sub t2 t1 in
      if \<not> col_any (\<lambda>x. np_eq x (Fin 0)) tau \<and> col_any (\<lambda>x. np_lt x (Fin 0)) tau
      then Inl NameError
      else
        let result = forward_variance t1 \<sigma>_t1 t2 \<sigma>_t2 in
        if mat_any (\<lambda>x. np_lt x (Fin 0)) result then Inl NegativeVariance
        else Inr (mat_map np_sqrt result))"
  by (simp add: forward_volatility_def Let_def)

lemma length_col_col [simp]: "length (col_col f a b) = min (length a) (length b)"
  by (simp add: col_col_def)

lemma nth_col_col [simp]: "i < length a \<Longrightarrow> i < length b \<Longrightarrow> col_col f a b ! i = f (a ! i) (b ! i)"
  by (simp add: col_col_def)

lemma length_mat_col [simp]: "length (mat_col f M c) = min (length M) (length c)"
  by (simp add: mat_col_def)

lemma nth_mat_col [simp]: "i < length M \<Longrightarrow> i < length c \<Longrightarrow> mat_col f M c ! i = map (\<lambda>y. f y (c ! i)) (M ! i)"
  by (simp add: mat_col_def)

lemma length_mat_mat [simp]: "length (mat_mat f A B) = min (length A) (length B)"
  by (simp add: mat_mat_def)

lemma nth_mat_mat [simp]: "i < length A \<Longrightarrow> i < length B \<Longrightarrow> mat_mat f A B ! i = map2 f (A ! i) (B ! i)"
  by (simp add: mat_mat_def)

lemma length_mat_map [simp]: "length (mat_map f A) = length A"
  by (simp add: mat_map_def)

lemma nth_mat_map [simp]: "i < length A \<Longrightarrow> mat_map f A ! i = map f (A ! i)"
  by (simp add: mat_map_def)

lemma col_any_iff: "col_any p c \<longleftrightarrow> (\<exists>i<length c. p (c ! i))"
  by (simp add: col_any_def list_ex_length)

lemma mat_any_iff: "mat_any p A \<longleftrightarrow> (\<exists>i<length A. \<exists>j<length (A ! i). p (A ! i ! j))"
  by (simp add: mat_any_def list_ex_length)

lemma length_forward_variance:
  "length t2 = length t1 \<Longrightarrow> length s1 = length t1 \<Longrightarrow> length s2 = length t1
   \<Longrightarrow> length (forward_variance t1 s1 t2 s2) = length t1"
  by (simp add: forward_variance_def)

lemma length_nth_forward_variance:
  "length t2 = length t1 \<Longrightarrow> length s1 = length t1 \<Longrightarrow> length s2 = length t1 \<Longrightarrow> i < length t1
   \<Longrightarrow> length (forward_variance t1 s1 t2 s2 ! i) = min (length (s1 ! i)) (length (s2 ! i))"
  by (simp add: forward_variance_def)

lemma nth_forward_variance:
  "length t2 = length t1 \<Longrightarrow> length s1 = length t1 \<Longrightarrow> length s2 = length t1 \<Longrightarrow> i < length t1
   \<Longrightarrow> j < length (s1 ! i) \<Longrightarrow> j < length (s2 ! i)
   \<Longrightarrow> forward_variance t1 s1 t2 s2 ! i ! j = fv_cell (t1 ! i) (s1 ! i ! j) (t2 ! i) (s2 ! i ! j)"
  by (simp add: forward_variance_def fv_cell_def)

lemma forward_volatility_single:
  "forward_volatility [a] [[s1]] [b] [[s2]] =
     (if \<not> np_eq (np_sub b a) (Fin 0) \<and> np_lt (np_sub b a) (Fin 0) then Inl NameError
      else if np_lt (fv_cell a s1 b s2) (Fin 0) then Inl NegativeVariance
      else Inr [[np_sqrt (fv_cell a s1 b s2)]])"
  by (simp add: forward_volatility_eq forward_variance_def fv_cell_def col_col_def mat_col_def
      mat_mat_def mat_map_def col_any_def mat_any_def Let_def)

lemma fv_cell_same: "fv_cell (Fin a) s (Fin a) s = NaN"
  by (cases s) (simp_all add: fv_cell_def np_sub_def np_sq_def signed_inf_def)




lemma flat_forward_interp_nth:
  assumes len: "length t2 = length t1" "length t = length t1" "length s1 = length t1" "length s2 = length t1"
    and fv: "forward_volatility t1 s1 t2 s2 = Inr V"
  shows "\<exists>M. flat_forward_interp t1 s1 t2 s2 t = Inr M \<and> length M = length t1 \<and>
      (\<forall>i<length t1. length (M ! i) = min (length (s1 ! i)) (length (s2 ! i)) \<and>
         (\<forall>j. j < length (s1 ! i) \<longrightarrow> j < length (s2 ! i) \<longrightarrow>
            M ! i ! j = ffi_cell (t1 ! i) (s1 ! i ! j) (np_sqrt (fv_cell (t1 ! i) (s1 ! i ! j) (t2 ! i) (s2 ! i ! j))) (t ! i)))"
proof -
  have V: "V = mat_map np_sqrt (forward_variance t1 s1 t2 s2)"
    using fv by (auto simp: forward_volatility_eq Let_def split: if_splits)
  have lV: "length V = length t1"
    using len by (simp add: V length_forward_variance)
  let ?M = "mat_map np_sqrt
                 (mat_col np_div
                    (mat_mat np_add (mat_col np_mul (mat_map np_sq s1) t1)
                                    (mat_col np_mul (mat_map np_sq V) (col_col np_sub t t1)))
                    t)"
  have M: "flat_forward_interp t1 s1 t2 s2 t = Inr ?M"
    by (simp add: flat_forward_interp_def fv)
  have lM: "length ?M = length t1" using len lV by simp
  have cells: "length (?M ! i) = min (length (s1 ! i)) (length (s2 ! i)) \<and>
         (\<forall>j. j < length (s1 ! i) \<longrightarrow> j < length (s2 ! i) \<longrightarrow>
            ?M ! i ! j = ffi_cell (t1 ! i) (s1 ! i ! j) (np_sqrt (fv_cell (t1 ! i) (s1 ! i ! j) (t2 ! i) (s2 ! i ! j))) (t ! i))"
    if i: "i < length t1" for i
  proof -
    have lVi: "length (V ! i) = min (length (s1 ! i)) (length (s2 ! i))"
      using len i by (simp add: V length_forward_variance length_nth_forward_variance)
    have Vij: "V ! i ! j = np_sqrt (fv_cell (t1 ! i) (s1 ! i ! j) (t2 ! i) (s2 ! i ! j))"
      if "j < length (s1 ! i)" "j < length (s2 ! i)" for j
      using len i that by (simp add: V length_forward_variance length_nth_forward_variance nth_forward_variance)
    show ?thesis
      using len i lV lVi Vij by (simp add: ffi_cell_def)
  qed
  show ?thesis using M lM cells by blast
qed


lemma forward_volatility_NegativeVariance:
  assumes len: "length t2 = length t1" "length s1 = length t1" "length s2 = length t1"
    and tau: "(\<exists>i<length t1. np_eq (np_sub (t2 ! i) (t1 ! i)) (Fin 0))
              \<or> (\<forall>i<length t1. \<not> np_lt (np_sub (t2 ! i) (t1 ! i)) (Fin 0))"
    and cell: "i < length t1" "j < length (s1 ! i)" "j < length (s2 ! i)"
         "np_lt (fv_cell (t1 ! i) (s1 ! i ! j) (t2 ! i) (s2 ! i ! j)) (Fin 0)"
  shows "forward_volatility t1 s1 t2 s2 = Inl NegativeVariance"
proof -
  have a: "\<not> (\<not> col_any (\<lambda>x. np_eq x (Fin 0)) (col_col np_sub t2 t1)
              \<and> col_any (\<lambda>x. np_lt x (Fin 0)) (col_col np_sub t2 t1))"
    using tau len by (auto simp: col_any_iff)
  have b: "mat_any (\<lambda>x. np_lt x (Fin 0)) (forward_variance t1 s1 t2 s2)"
  proof -
    have "i < length (forward_variance t1 s1 t2 s2)"
      using cell len by (simp add: length_forward_variance)
    moreover have "j < length (forward_variance t1 s1 t2 s2 ! i)"
      using cell len by (simp add: length_nth_forward_variance)
    moreover have "np_lt (forward_variance t1 s1 t2 s2 ! i ! j) (Fin 0)"
      using cell len by (simp add: nth_forward_variance)
    ultimately show ?thesis unfolding mat_any_iff by blast
  qed
  show ?thesis using a b by (simp add: forward_volatility_eq Let_def)
qed



subsection \<open>The flat-forward formulas\<close>




subsection \<open>The round trip through the interpolation\<close>


lemma round_half_even_near:
  assumes "\<bar>x - of_int m\<bar> < 1 / 2"
  shows "round_half_even x = m"
proof (cases "of_int m \<le> x")
  case True
  then have f: "\<lfloor>x\<rfloor> = m" using assms by (intro floor_unique) auto
  show ?thesis using assms True by (simp add: round_half_even_def f Let_def)
next
  case False
  then have f: "\<lfloor>x\<rfloor> = m - 1" using assms by (intro floor_unique) auto
  show ?thesis using assms False by (auto simp add: round_half_even_def f Let_def)
qed

lemma round64_eqI:
  fixes n :: nat
  assumes lo: "2 ^ 52 \<le> \<bar>x\<bar> * 2 ^ n" and hi: "\<bar>x\<bar> * 2 ^ n < 2 ^ 53"
    and near: "\<bar>x * 2 ^ n - of_int m\<bar> < 1 / 2"
  shows "round64 x = of_int m / 2 ^ n"
proof -
  have x0: "x \<noteq> 0" using lo by auto
  have pos: "0 < \<bar>x\<bar>" using x0 by simp
  have "\<lfloor>log 2 \<bar>x\<bar>\<rfloor> = 52 - int n"
  proof (rule floor_unique)
    have "2 powr (52 - real n) \<le> \<bar>x\<bar>"
    proof -
      have "2 powr (52 - real n) = 2 ^ 52 / 2 ^ n"
        by (simp add: powr_diff powr_realpow[symmetric])
      also have "\<dots> \<le> \<bar>x\<bar>" using lo by (simp add: field_simps)
      finally show ?thesis .
    qed
    then have "52 - real n \<le> log 2 \<bar>x\<bar>" using pos by (simp add: le_log_iff)
    then show "of_int (52 - int n) \<le> log 2 \<bar>x\<bar>" by simp
    have "\<bar>x\<bar> < 2 powr (53 - real n)"
    proof -
      have "\<bar>x\<bar> < 2 ^ 53 / 2 ^ n" using hi by (simp add: field_simps)
      also have "\<dots> = 2 powr (53 - real n)"
        by (simp add: powr_diff powr_realpow[symmetric])
      finally show ?thesis .
    qed
    then have "log 2 \<bar>x\<bar> < 53 - real n" using pos by (simp add: log_less_iff)
    then show "log 2 \<bar>x\<bar> < of_int (52 - int n) + 1" by simp
  qed
  then have e: "\<lfloor>log 2 \<bar>x\<bar>\<rfloor> - 52 = - int n" by simp
  have p: "(2::real) powr (- real n) = 1 / 2 ^ n"
    by (simp add: powr_minus powr_realpow field_simps)
  have q: "x / 2 powr (- real n) = x * 2 ^ n" by (simp add: p)
  have "round_half_even (x / 2 powr (- real n)) = m"
    unfolding q using near by (rule round_half_even_near)
  then show ?thesis using x0 by (simp add: round64_def e Let_def p)
qed

lemma round64_eqI':
  fixes n :: nat
  assumes "y = of_int m / 2 ^ n" "2 ^ 52 \<le> \<bar>x\<bar> * 2 ^ n" "\<bar>x\<bar> * 2 ^ n < 2 ^ 53"
    "\<bar>x * 2 ^ n - of_int m\<bar> < 1 / 2"
  shows "round64 x = y"
  using round64_eqI[OF assms(2,3,4)] assms(1) by simp








text \<open>
  A run in double precision: \<open>t1 = 0.25\<close>, \<open>\<sigma>(t1) = 0.3848\<close>, \<open>t2 = 1\<close>,
  \<open>\<sigma>(t2) = 0.1924\<close>, \<open>t = 0.5\<close>. The two volatilities are the doubles nearest to the
  decimal literals, \<open>6931940546448667 / 2\<^sup>5\<^sup>4\<close> and \<open>6931940546448667 / 2\<^sup>5\<^sup>5\<close>, so
  \<open>\<sigma>(t1) = 2 \<sigma>(t2)\<close> and the forward variance between the brackets is zero, in the
  reals and as line 264 computes it.
\<close>

lemma round64_literal_3848: "round64 (3848 / 10000) = 6931940546448667 / 2 ^ 54"
  by (rule round64_eqI'[where n = 54 and m = 6931940546448667]) simp_all

lemma round64_literal_1924: "round64 (1924 / 10000) = 6931940546448667 / 2 ^ 55"
  by (rule round64_eqI'[where n = 55 and m = 6931940546448667]) simp_all


























subsection \<open>The brackets of the daily grid\<close>

lemma case_last_nonempty:
  "xs \<noteq> [] \<Longrightarrow> (case xs of [] \<Rightarrow> None | q # qs \<Rightarrow> Some (last (q # qs))) = Some (last xs)"
  by (cases xs) simp_all

lemma merge_asof_at_pillar:
  assumes srt: "sorted (map tenor_date ps)" and dst: "distinct (map tenor_date ps)"
    and p: "p \<in> set ps"
  shows "merge_asof_backward ps (tenor_date p) = Some p"
    and "merge_asof_forward ps (tenor_date p) = Some p"
proof -
  obtain xs ys where ps: "ps = xs @ p # ys" using p by (meson split_list)
  have xs: "\<forall>x\<in>set xs. tenor_date x < tenor_date p"
  proof
    fix x assume x: "x \<in> set xs"
    have "tenor_date x \<le> tenor_date p" using srt x unfolding ps by (auto simp: sorted_append)
    moreover have "tenor_date x \<noteq> tenor_date p" using dst x unfolding ps by (force simp: image_iff)
    ultimately show "tenor_date x < tenor_date p" by simp
  qed
  have ys: "\<forall>y\<in>set ys. tenor_date p < tenor_date y"
  proof
    fix y assume y: "y \<in> set ys"
    have "tenor_date p \<le> tenor_date y" using srt y unfolding ps by (auto simp: sorted_append)
    moreover have "tenor_date y \<noteq> tenor_date p" using dst y unfolding ps by (force simp: image_iff)
    ultimately show "tenor_date p < tenor_date y" by simp
  qed
  have fb: "filter (\<lambda>q. tenor_date q \<le> tenor_date p) ps = xs @ [p]"
  proof -
    have "filter (\<lambda>q. tenor_date q \<le> tenor_date p) xs = xs"
      using xs by (intro filter_True) (simp add: less_imp_le)
    moreover have "filter (\<lambda>q. tenor_date q \<le> tenor_date p) ys = []"
      using ys by (auto simp: filter_empty_conv)
    ultimately show ?thesis unfolding ps by simp
  qed
  have ff: "filter (\<lambda>q. tenor_date p \<le> tenor_date q) ps = p # ys"
  proof -
    have "filter (\<lambda>q. tenor_date p \<le> tenor_date q) ys = ys"
      using ys by (intro filter_True) (simp add: less_imp_le)
    moreover have "filter (\<lambda>q. tenor_date p \<le> tenor_date q) xs = []"
      using xs by (auto simp: filter_empty_conv)
    ultimately show ?thesis unfolding ps by simp
  qed
  show "merge_asof_backward ps (tenor_date p) = Some p"
    by (simp add: merge_asof_backward_def fb case_last_nonempty)
  show "merge_asof_forward ps (tenor_date p) = Some p"
    by (simp add: merge_asof_forward_def ff)
qed

lemma sorted_daily_dates: "sorted (daily_dates ps)" "distinct (daily_dates ps)"
  by (simp_all add: daily_dates_def)

lemma sort_key_daily_dates:
  assumes "sorted (sort_key yf (daily_dates ps))"
  shows "sort_key yf (daily_dates ps) = daily_dates ps"
  using assms sorted_daily_dates[of ps]
  by (intro sorted_distinct_set_unique) simp_all

lemma set_daily_dates:
  "ps \<noteq> [] \<Longrightarrow> p \<in> set ps \<Longrightarrow> tenor_date p \<in> set (daily_dates ps)"
  by (simp add: daily_dates_def)

lemma brackets_sorted:
  assumes "sorted (sort_key yf (daily_dates ps))"
  shows "brackets yf ps =
     (map (\<lambda>d. tenor_years_pillar (merge_asof_backward ps d)) (daily_dates ps),
      map (\<lambda>d. cols (merge_asof_backward ps d)) (daily_dates ps),
      map (\<lambda>d. tenor_years_pillar (merge_asof_forward ps d)) (daily_dates ps),
      map (\<lambda>d. cols (merge_asof_forward ps d)) (daily_dates ps),
      map (\<lambda>d. Fin (yf d)) (daily_dates ps))"
  by (simp add: brackets_def sort_key_daily_dates[OF assms] Let_def o_def)

lemma length_np_where [simp]:
  "length (np_where msk A B) = min (length msk) (min (length A) (length B))"
  by (simp add: np_where_def)

lemma nth_np_where:
  "i < length msk \<Longrightarrow> i < length A \<Longrightarrow> i < length B
   \<Longrightarrow> np_where msk A B ! i = (if msk ! i then A ! i else B ! i)"
  by (simp add: np_where_def)

lemma flat_forward_interp_length:
  assumes len: "length t2 = length t1" "length t = length t1" "length s1 = length t1"
     "length s2 = length t1"
    and A: "flat_forward_interp t1 s1 t2 s2 t = Inr A"
  shows "length A = length t1"
proof -
  obtain V where V: "forward_volatility t1 s1 t2 s2 = Inr V"
    using A by (auto simp: flat_forward_interp_def split: sum.splits)
  from flat_forward_interp_nth[OF len V] A show ?thesis by auto
qed

lemma interp_daily_InrD:
  assumes G: "interp_daily yf ps = Inr G"
  shows "ps \<noteq> []" and "sorted (map tenor_date ps)" and "sorted (sort_key yf (daily_dates ps))"
    and "\<exists>A. length A = length (daily_dates ps) \<and>
           G = zip (daily_dates ps) (zip (map yf (daily_dates ps))
                 (np_where
                    (col_col np_ne (map (\<lambda>d. tenor_years_pillar (merge_asof_backward ps d)) (daily_dates ps))
                                   (map (\<lambda>d. tenor_years_pillar (merge_asof_forward ps d)) (daily_dates ps)))
                    A (map (\<lambda>d. cols (merge_asof_backward ps d)) (daily_dates ps))))"
proof -
  show ne: "ps \<noteq> []" using G by (auto simp: interp_daily_def split: if_splits)
  show srt: "sorted (map tenor_date ps)"
    using G by (auto simp: interp_daily_def split: if_splits)
  show left: "sorted (sort_key yf (daily_dates ps))"
    using G by (auto simp: interp_daily_def split: if_splits)
  let ?ds = "daily_dates ps"
  let ?t1 = "map (\<lambda>d. tenor_years_pillar (merge_asof_backward ps d)) ?ds"
  let ?t2 = "map (\<lambda>d. tenor_years_pillar (merge_asof_forward ps d)) ?ds"
  let ?s1 = "map (\<lambda>d. cols (merge_asof_backward ps d)) ?ds"
  let ?s2 = "map (\<lambda>d. cols (merge_asof_forward ps d)) ?ds"
  let ?t = "map (\<lambda>d. Fin (yf d)) ?ds"
  have eq: "interp_daily yf ps =
      (case flat_forward_interp ?t1 ?s1 ?t2 ?s2 ?t of
         Inl e \<Rightarrow> Inl e
       | Inr A \<Rightarrow> Inr (zip ?ds (zip (map yf ?ds) (np_where (col_col np_ne ?t1 ?t2) A ?s1))))"
    using ne srt left by (simp add: interp_daily_def brackets_sorted[OF left] Let_def)
  obtain A where A: "flat_forward_interp ?t1 ?s1 ?t2 ?s2 ?t = Inr A"
    and GA: "G = zip ?ds (zip (map yf ?ds) (np_where (col_col np_ne ?t1 ?t2) A ?s1))"
  proof (cases "flat_forward_interp ?t1 ?s1 ?t2 ?s2 ?t")
    case (Inl e)
    then show ?thesis using G eq by simp
  next
    case (Inr A)
    then show ?thesis using G eq that by simp
  qed
  have "length A = length ?t1"
    by (rule flat_forward_interp_length[OF _ _ _ _ A]) simp_all
  then show "\<exists>A. length A = length ?ds \<and>
           G = zip ?ds (zip (map yf ?ds) (np_where (col_col np_ne ?t1 ?t2) A ?s1))"
    using GA by auto
qed

lemma interp_daily_at_pillar:
  assumes G: "interp_daily yf ps = Inr G" and dst: "distinct (map tenor_date ps)"
    and p: "p \<in> set ps"
  shows "\<exists>i<length G. G ! i = (tenor_date p, yf (tenor_date p), cols (Some p))
            \<and> (\<forall>j<length G. fst (G ! j) = tenor_date p \<longrightarrow> j = i)"
proof -
  let ?ds = "daily_dates ps"
  note D = interp_daily_InrD[OF G]
  let ?t1 = "map (\<lambda>d. tenor_years_pillar (merge_asof_backward ps d)) ?ds"
  let ?t2 = "map (\<lambda>d. tenor_years_pillar (merge_asof_forward ps d)) ?ds"
  let ?s1 = "map (\<lambda>d. cols (merge_asof_backward ps d)) ?ds"
  from D(4) obtain A where lA: "length A = length ?ds"
    and GA: "G = zip ?ds (zip (map yf ?ds) (np_where (col_col np_ne ?t1 ?t2) A ?s1))"
    by blast
  have lG: "length G = length ?ds" using lA by (simp add: GA)
  have "tenor_date p \<in> set ?ds" using set_daily_dates[OF D(1) p] .
  then obtain i where i: "i < length ?ds" "?ds ! i = tenor_date p"
    by (auto simp: in_set_conv_nth)
  have m: "merge_asof_backward ps (?ds ! i) = Some p" "merge_asof_forward ps (?ds ! i) = Some p"
    using merge_asof_at_pillar[OF D(2) dst p] i by simp_all
  have msk: "\<not> col_col np_ne ?t1 ?t2 ! i"
    using i m by (simp add: np_ne_def tenor_years_pillar_def)
  have row: "np_where (col_col np_ne ?t1 ?t2) A ?s1 ! i = cols (Some p)"
    using i lA msk m by (simp add: nth_np_where)
  have Gi: "G ! i = (tenor_date p, yf (tenor_date p), cols (Some p))"
    using i lA row by (simp add: GA)
  have uniq: "j = i" if j: "j < length G" "fst (G ! j) = tenor_date p" for j
  proof -
    have jl: "j < length ?ds" using j(1) lG by simp
    have "fst (G ! j) = ?ds ! j" unfolding GA using jl lA by simp
    then have "?ds ! j = ?ds ! i" using j(2) i(2) by simp
    then show ?thesis
      using nth_eq_iff_index_eq[OF sorted_daily_dates(2), of j ps i] jl i(1) by simp
  qed
  have "i < length G" using i(1) lG by simp
  then show ?thesis using Gi uniq by blast
qed

lemma np_div_neg:
  "np_lt n (Fin 0) \<Longrightarrow> 0 < b \<Longrightarrow> np_lt (np_div n (Fin b)) (Fin 0)"
  by (cases n) (simp_all add: divide_less_0_iff)

lemma length_cols [simp]: "length (cols r) = 3"
  by (simp add: cols_def split: option.splits)

lemma pillar_row_tau_zero:
  assumes ne: "ps \<noteq> []" and srt: "sorted (map tenor_date ps)"
    and dst: "distinct (map tenor_date ps)"
  shows "\<exists>i<length (daily_dates ps).
           np_eq (np_sub (tenor_years_pillar (merge_asof_forward ps (daily_dates ps ! i)))
                         (tenor_years_pillar (merge_asof_backward ps (daily_dates ps ! i)))) (Fin 0)"
proof -
  obtain p where p: "p \<in> set ps" using ne by (cases ps) auto
  have "tenor_date p \<in> set (daily_dates ps)" using set_daily_dates[OF ne p] .
  then obtain i where i: "i < length (daily_dates ps)" "daily_dates ps ! i = tenor_date p"
    by (auto simp: in_set_conv_nth)
  have "merge_asof_backward ps (daily_dates ps ! i) = Some p"
       "merge_asof_forward ps (daily_dates ps ! i) = Some p"
    using merge_asof_at_pillar[OF srt dst p] i by simp_all
  then have "np_eq (np_sub (tenor_years_pillar (merge_asof_forward ps (daily_dates ps ! i)))
                         (tenor_years_pillar (merge_asof_backward ps (daily_dates ps ! i)))) (Fin 0)"
    by (simp add: tenor_years_pillar_def np_sub_def)
  then show ?thesis using i(1) by blast
qed


lemma demo_dates: "daily_dates demo_pillars = [10, 11, 12]"
  by (simp add: daily_dates_def demo_pillars_def upto.simps)

lemma demo_dates_arbitrage: "daily_dates demo_pillars_arbitrage = [10, 11, 12]"
  by (simp add: daily_dates_def demo_pillars_arbitrage_def upto.simps)

lemma demo_year_fraction: "year_fraction (demo_collaborators sse) = (\<lambda>d. real_of_int d / 360)"
  by (simp add: demo_collaborators_def)

lemma demo_brackets:
  "brackets (\<lambda>d. real_of_int d / 360) demo_pillars =
     ([Fin (10 / 360), Fin (10 / 360), Fin (12 / 360)],
      [[Fin (1 / 10), Fin (1 / 10), Fin (1 / 10)], [Fin (1 / 10), Fin (1 / 10), Fin (1 / 10)],
       [Fin (1 / 10), Fin (1 / 10), Fin (1 / 10)]],
      [Fin (10 / 360), Fin (12 / 360), Fin (12 / 360)],
      [[Fin (1 / 10), Fin (1 / 10), Fin (1 / 10)], [Fin (1 / 10), Fin (1 / 10), Fin (1 / 10)],
       [Fin (1 / 10), Fin (1 / 10), Fin (1 / 10)]],
      [Fin (10 / 360), Fin (11 / 360), Fin (12 / 360)])"
  by (simp add: brackets_def demo_dates Let_def)
     (simp add: demo_pillars_def merge_asof_backward_def merge_asof_forward_def
        tenor_years_pillar_def cols_def)

lemma sqrt_one_hundredth: "sqrt (1 / 100) = 1 / 10"
  by (rule real_sqrt_unique) (simp_all add: power2_eq_square)

lemma demo_build:
  "build_\<Delta>_\<sigma>_daily (demo_collaborators sse) curve demo_pillars
     = Inr [demo_row 10, demo_row 11, demo_row 12]"
proof -
  have a: "demo_pillars \<noteq> []" "sorted (map tenor_date demo_pillars)"
    by (simp_all add: demo_pillars_def)
  show ?thesis
    by (simp add: build_\<Delta>_\<sigma>_daily_def interp_daily_def demo_year_fraction demo_dates
          demo_brackets a Let_def)
       (simp add: flat_forward_interp_def forward_volatility_eq
          forward_variance_def col_col_def mat_col_def mat_mat_def mat_map_def col_any_def
          mat_any_def np_where_def np_sub_def np_sq_def np_ne_def signed_inf_def Let_def
          sqrt_one_hundredth demo_row_def demo_collaborators_def demo_dates)
qed


subsection \<open>The daily grid at the pillar dates\<close>

text \<open>
  C4. When the construction of the daily grid succeeds, from a pillar table with distinct
  tenor dates, the grid has a row at the date of every pillar, and that row holds the
  pillar's own three quoted volatilities: at a pillar date both brackets are that pillar,
  and \<open>np.where\<close> takes the volatilities of the lower bracket there, not the value of
  the flat-forward formula.
\<close>

theorem daily_grid_pass_through:
  assumes b: "build_\<Delta>_\<sigma>_daily c curve ps = Inr grid"
    and dst: "distinct (map tenor_date ps)" and p: "p \<in> set ps"
  shows "\<exists>row. loc grid (tenor_date p) = Some row
           \<and> daily_\<sigma> row = [\<sigma>_25\<Delta>put p, \<sigma>_atm\<Delta>neutral p, \<sigma>_25\<Delta>call p]"
proof -
  define mk where "mk = (\<lambda>(d, ty, vols).
                 \<lparr>daily_tenor_date = d, daily_tenor_years = ty, daily_\<sigma> = vols,
                  daily_\<Delta>_convention = regular_forward_\<Delta>,
                  foreign_ccy_continuously_compounded_zero_rate = foreign_zero_rate c d,
                  domestic_ccy_continuously_compounded_zero_rate = domestic_zero_rate c d,
                  fx_forward_rate = interp_fx_forward_curve c curve True d\<rparr>)"
  obtain G where G: "interp_daily (year_fraction c) ps = Inr G" and grid: "grid = map mk G"
    using b by (auto simp: build_\<Delta>_\<sigma>_daily_def mk_def split: sum.splits)
  have mkd: "daily_tenor_date (mk x) = fst x" for x
    by (cases x) (simp add: mk_def)
  from interp_daily_at_pillar[OF G dst p]
  obtain i where i: "i < length G"
    and Gi: "G ! i = (tenor_date p, year_fraction c (tenor_date p), cols (Some p))"
    and uniq: "\<And>j. j < length G \<Longrightarrow> fst (G ! j) = tenor_date p \<Longrightarrow> j = i"
    by blast
  have "find (\<lambda>r. daily_tenor_date r = tenor_date p) grid = Some (grid ! i)"
    unfolding find_Some_iff
  proof (intro exI[of _ i] conjI allI impI)
    show "i < length grid" using i by (simp add: grid)
    show "daily_tenor_date (grid ! i) = tenor_date p" using i Gi by (simp add: grid mkd)
    show "grid ! i = grid ! i" ..
    fix j assume "j < i"
    then show "\<not> daily_tenor_date (grid ! j) = tenor_date p"
      using i uniq[of j] by (auto simp: grid mkd)
  qed
  moreover have "daily_\<sigma> (grid ! i) = [\<sigma>_25\<Delta>put p, \<sigma>_atm\<Delta>neutral p, \<sigma>_25\<Delta>call p]"
    using i Gi by (simp add: grid mk_def cols_def)
  ultimately show ?thesis by (simp add: loc_def)
qed

theorem daily_grid_pass_through_witness:
  "build_\<Delta>_\<sigma>_daily (demo_collaborators (Fin 0)) [] demo_pillars
      = Inr [demo_row 10, demo_row 11, demo_row 12]
   \<and> distinct (map tenor_date demo_pillars)
   \<and> (\<exists>row. loc [demo_row 10, demo_row 11, demo_row 12] 12 = Some row
          \<and> daily_\<sigma> row = [Fin (1 / 10), Fin (1 / 10), Fin (1 / 10)])"
proof -
  have b: "build_\<Delta>_\<sigma>_daily (demo_collaborators (Fin 0)) [] demo_pillars
      = Inr [demo_row 10, demo_row 11, demo_row 12]" by (rule demo_build)
  have dst: "distinct (map tenor_date demo_pillars)" by (simp add: demo_pillars_def)
  have p: "demo_pillars ! 1 \<in> set demo_pillars" by (simp add: demo_pillars_def)
  show ?thesis
    using b dst daily_grid_pass_through [OF b dst p] by (simp add: demo_pillars_def)
qed


subsection \<open>Negative forward variance\<close>

text \<open>
  C5. Take a pillar table that reaches the interpolation (non-empty, sorted and distinct
  tenor dates, year fractions that increase with the date). If at some date of the grid
  the brackets \<open>p1\<close>, \<open>p2\<close> have \<open>t1 < t2\<close> and some delta bucket has
  \<open>\<sigma>(t2)\<^sup>2 t2 - \<sigma>(t1)\<^sup>2 t1 < 0\<close>, the construction of the daily grid raises the error
  "Negative value encountered under square root": it returns no grid, so no not-a-number
  and no complex value.
\<close>

theorem negative_forward_variance_rejected:
  assumes ne: "ps \<noteq> []" and srt: "sorted (map tenor_date ps)"
    and dst: "distinct (map tenor_date ps)"
    and left: "sorted (sort_key (year_fraction c) (daily_dates ps))"
    and d: "d \<in> set (daily_dates ps)"
    and lo: "merge_asof_backward ps d = Some p1" and up: "merge_asof_forward ps d = Some p2"
    and t: "tenor_years p1 < tenor_years p2"
    and j: "j < 3"
    and neg: "np_lt (np_sub (np_mul (np_sq (cols (Some p2) ! j)) (Fin (tenor_years p2)))
                            (np_mul (np_sq (cols (Some p1) ! j)) (Fin (tenor_years p1))))
                    (Fin 0)"
  shows "build_\<Delta>_\<sigma>_daily c curve ps = Inl NegativeVariance"
proof -
  let ?yf = "year_fraction c"
  let ?ds = "daily_dates ps"
  let ?t1 = "map (\<lambda>d. tenor_years_pillar (merge_asof_backward ps d)) ?ds"
  let ?t2 = "map (\<lambda>d. tenor_years_pillar (merge_asof_forward ps d)) ?ds"
  let ?s1 = "map (\<lambda>d. cols (merge_asof_backward ps d)) ?ds"
  let ?s2 = "map (\<lambda>d. cols (merge_asof_forward ps d)) ?ds"
  let ?t = "map (\<lambda>d. Fin (?yf d)) ?ds"
  obtain i where i: "i < length ?ds" "?ds ! i = d"
    using d by (auto simp: in_set_conv_nth)
  have tau: "(\<exists>i<length ?t1. np_eq (np_sub (?t2 ! i) (?t1 ! i)) (Fin 0))
              \<or> (\<forall>i<length ?t1. \<not> np_lt (np_sub (?t2 ! i) (?t1 ! i)) (Fin 0))"
    using pillar_row_tau_zero[OF ne srt dst] by auto
  have cell: "np_lt (fv_cell (?t1 ! i) (?s1 ! i ! j) (?t2 ! i) (?s2 ! i ! j)) (Fin 0)"
    using i lo up t neg
    by (simp add: fv_cell_def tenor_years_pillar_def np_sub_def[of "Fin (tenor_years p2)"] np_div_neg)
  have fv: "forward_volatility ?t1 ?s1 ?t2 ?s2 = Inl NegativeVariance"
    by (rule forward_volatility_NegativeVariance[OF _ _ _ tau _ _ _ cell]) (use i j in simp_all)
  have "flat_forward_interp ?t1 ?s1 ?t2 ?s2 ?t = Inl NegativeVariance"
    by (simp add: flat_forward_interp_def fv)
  then have "interp_daily ?yf ps = Inl NegativeVariance"
    using ne srt left by (simp add: interp_daily_def brackets_sorted[OF left] Let_def)
  then show ?thesis by (simp add: build_\<Delta>_\<sigma>_daily_def)
qed

theorem negative_forward_variance_rejected_witness:
  "build_\<Delta>_\<sigma>_daily (demo_collaborators (Fin 0)) [] demo_pillars_arbitrage = Inl NegativeVariance"
proof -
  let ?c = "demo_collaborators (Fin 0)"
  let ?ps = "demo_pillars_arbitrage"
  have ne: "?ps \<noteq> []" by (simp add: demo_pillars_arbitrage_def)
  have srt: "sorted (map tenor_date ?ps)" by (simp add: demo_pillars_arbitrage_def)
  have dst: "distinct (map tenor_date ?ps)" by (simp add: demo_pillars_arbitrage_def)
  have left: "sorted (sort_key (year_fraction ?c) (daily_dates ?ps))"
    by (simp add: demo_year_fraction demo_dates_arbitrage)
  have d: "11 \<in> set (daily_dates ?ps)" by (simp add: demo_dates_arbitrage)
  have lo: "merge_asof_backward ?ps 11 = Some (?ps ! 0)"
    by (simp add: merge_asof_backward_def demo_pillars_arbitrage_def)
  have up: "merge_asof_forward ?ps 11 = Some (?ps ! 1)"
    by (simp add: merge_asof_forward_def demo_pillars_arbitrage_def)
  have t: "tenor_years (?ps ! 0) < tenor_years (?ps ! 1)"
    by (simp add: demo_pillars_arbitrage_def)
  have j: "(1::nat) < 3" by simp
  have neg: "np_lt (np_sub (np_mul (np_sq (cols (Some (?ps ! 1)) ! 1)) (Fin (tenor_years (?ps ! 1))))
                            (np_mul (np_sq (cols (Some (?ps ! 0)) ! 1)) (Fin (tenor_years (?ps ! 0)))))
                    (Fin 0)"
    by (simp add: demo_pillars_arbitrage_def cols_def np_sq_def np_sub_def)
  show ?thesis
    by (rule negative_forward_variance_rejected [OF ne srt dst left d lo up t j neg])
qed

subsection \<open>Equal bracket times\<close>

text \<open>
  C6, as stated (\<open>forward_volatility\<close> never returns a value when called with
  \<open>t2 = t1\<close>), fails: the call returns an array holding not-a-number.
\<close>

theorem forward_volatility_equal_times_counterexample:
  "forward_volatility [Fin 1] [[Fin (1 / 10)]] [Fin 1] [[Fin (1 / 10)]] = Inr [[NaN]]"
  by (simp add: forward_volatility_single fv_cell_same np_sub_def)


text \<open>
  C6, amended. The case \<open>t2 = t1\<close> is guarded by a warning, not by an assertion: called
  with equal times and equal volatilities, \<open>forward_volatility\<close> issues the warning and
  returns not-a-number. The construction of the daily grid reaches this case: the arrays
  it passes to \<open>flat_forward_interp\<close> hold a row with equal bracket times (each pillar
  date), so the warning is issued; in every such row \<open>np.where\<close> then discards the
  interpolated value and copies the volatilities of the lower bracket.
\<close>

theorem forward_volatility_equal_times:
  assumes ne: "ps \<noteq> []" and srt: "sorted (map tenor_date ps)"
    and dst: "distinct (map tenor_date ps)"
    and left: "sorted (sort_key yf (daily_dates ps))"
    and br: "brackets yf ps = (t1, \<sigma>_t1, t2, \<sigma>_t2, t)"
  shows "forward_volatility_warns [Fin a] [Fin a]
         \<and> forward_volatility [Fin a] [[s]] [Fin a] [[s]] = Inr [[NaN]]
         \<and> forward_volatility_warns t1 t2
         \<and> (\<forall>i<length t1. \<forall>A. length A = length t1 \<longrightarrow> np_eq (t1 ! i) (t2 ! i) \<longrightarrow>
                np_where (col_col np_ne t1 t2) A \<sigma>_t1 ! i = \<sigma>_t1 ! i)"
proof (intro conjI allI impI)
  show "forward_volatility_warns [Fin a] [Fin a]"
    by (simp add: forward_volatility_warns_def col_any_def col_col_def np_sub_def)
  show "forward_volatility [Fin a] [[s]] [Fin a] [[s]] = Inr [[NaN]]"
    by (simp add: forward_volatility_single fv_cell_same np_sub_def)
  have t1: "t1 = map (\<lambda>d. tenor_years_pillar (merge_asof_backward ps d)) (daily_dates ps)"
    and t2: "t2 = map (\<lambda>d. tenor_years_pillar (merge_asof_forward ps d)) (daily_dates ps)"
    and s1: "\<sigma>_t1 = map (\<lambda>d. cols (merge_asof_backward ps d)) (daily_dates ps)"
    using br by (simp_all add: brackets_sorted[OF left])
  from pillar_row_tau_zero[OF ne srt dst]
  show "forward_volatility_warns t1 t2"
    unfolding forward_volatility_warns_def col_any_iff by (auto simp add: t1 t2)
  fix i and A :: matrix
  assume i: "i < length t1" and A: "length A = length t1" and e: "np_eq (t1 ! i) (t2 ! i)"
  have l: "length t2 = length t1" "length \<sigma>_t1 = length t1" by (simp_all add: t1 t2 s1)
  show "np_where (col_col np_ne t1 t2) A \<sigma>_t1 ! i = \<sigma>_t1 ! i"
    using i A e l by (simp add: nth_np_where np_ne_def)
qed


theorem forward_volatility_equal_times_witness:
  "forward_volatility_warns [Fin 1] [Fin 1]
   \<and> forward_volatility [Fin 1] [[Fin (1 / 5)]] [Fin 1] [[Fin (1 / 5)]] = Inr [[NaN]]
   \<and> forward_volatility_warns [Fin (10 / 360), Fin (10 / 360), Fin (12 / 360)]
         [Fin (10 / 360), Fin (12 / 360), Fin (12 / 360)]
   \<and> np_where (col_col np_ne [Fin (10 / 360), Fin (10 / 360), Fin (12 / 360)]
                  [Fin (10 / 360), Fin (12 / 360), Fin (12 / 360)])
         [[NaN, NaN, NaN], [Fin 7, Fin 8, Fin 9], [NaN, NaN, NaN]]
         [[Fin (1 / 10), Fin (1 / 10), Fin (1 / 10)], [Fin (1 / 10), Fin (1 / 10), Fin (1 / 10)],
          [Fin (1 / 10), Fin (1 / 10), Fin (1 / 10)]] ! 2
       = [Fin (1 / 10), Fin (1 / 10), Fin (1 / 10)]"
proof -
  have ne: "demo_pillars \<noteq> []" and srt: "sorted (map tenor_date demo_pillars)"
    and dst: "distinct (map tenor_date demo_pillars)"
    by (simp_all add: demo_pillars_def)
  have left: "sorted (sort_key (\<lambda>d. real_of_int d / 360) (daily_dates demo_pillars))"
    by (simp add: demo_dates)
  note th = forward_volatility_equal_times [OF ne srt dst left demo_brackets, of 1 "Fin (1 / 5)"]
  have "np_where (col_col np_ne [Fin (10 / 360), Fin (10 / 360), Fin (12 / 360)]
                  [Fin (10 / 360), Fin (12 / 360), Fin (12 / 360)])
         [[NaN, NaN, NaN], [Fin 7, Fin 8, Fin 9], [NaN, NaN, NaN]]
         [[Fin (1 / 10), Fin (1 / 10), Fin (1 / 10)], [Fin (1 / 10), Fin (1 / 10), Fin (1 / 10)],
          [Fin (1 / 10), Fin (1 / 10), Fin (1 / 10)]] ! 2
       = [[Fin (1 / 10), Fin (1 / 10), Fin (1 / 10)], [Fin (1 / 10), Fin (1 / 10), Fin (1 / 10)],
          [Fin (1 / 10), Fin (1 / 10), Fin (1 / 10)]] ! 2"
    using th by auto
  then show ?thesis using th by simp
qed

subsection \<open>Queries: the loops over the dates\<close>

lemma those_map_SomeD:
  "those (map f xs) = Some ys \<Longrightarrow> length ys = length xs \<and> (\<forall>i<length xs. f (xs ! i) = Some (ys ! i))"
proof (induction xs arbitrary: ys)
  case Nil
  then show ?case by simp
next
  case (Cons x xs)
  then obtain y ys' where y: "f x = Some y" "those (map f xs) = Some ys'" "ys = y # ys'"
    by (auto split: option.splits)
  from Cons.IH[OF y(2)] y show ?case by (auto simp: nth_Cons')
qed

lemma loc_SomeD: "loc df d = Some row \<Longrightarrow> daily_tenor_date row = d \<and> row \<in> set df"
  by (auto simp: loc_def find_Some_iff)

lemma fit_smile_cache [simp]:
  "fit_smile c (s\<lparr>K_\<sigma>_daily_smile_func := x\<rparr>) row = fit_smile c s row"
  by (simp add: fit_smile_def)

lemma fit_computed_cache [simp]:
  "fit_computed (s\<lparr>K_\<sigma>_daily_smile_func := x\<rparr>) = fit_computed s"
  by (simp add: fit_computed_def)

lemma fit_smile_Some_computed: "fit_smile c s row = Inr (Some f) \<Longrightarrow> fit_computed s"
  by (auto simp: fit_smile_def fit_computed_def Let_def split: option.splits if_splits)

lemma fit_smile_None_not_computed: "fit_smile c s row = Inr None \<Longrightarrow> \<not> fit_computed s"
  by (auto simp: fit_smile_def fit_computed_def Let_def split: option.splits if_splits)

lemma fit_loop_frame:
  "fit_loop c rows (s, fits) = ((s', fits'), e) \<Longrightarrow>
     s'\<lparr>K_\<sigma>_daily_smile_func := K_\<sigma>_daily_smile_func s\<rparr> = s
     \<and> K_\<sigma>_daily_smile_func s \<subseteq>\<^sub>m K_\<sigma>_daily_smile_func s'"
proof (induction rows arbitrary: s fits)
  case Nil
  then show ?case by simp
next
  case (Cons row rows)
  let ?d = "daily_tenor_date row"
  show ?case
  proof (cases "K_\<sigma>_daily_smile_func s ?d \<noteq> None")
    case True
    then have "fit_loop c rows (s, fits) = ((s', fits'), e)" using Cons.prems by (simp add: Let_def)
    from Cons.IH[OF this] show ?thesis .
  next
    case unc: False
    let ?fits = "if fit_computed s then fits @ [?d] else fits"
    show ?thesis
    proof (cases "fit_smile c s row")
      case (Inl err)
      then show ?thesis using Cons.prems unc by (simp add: Let_def)
    next
      case (Inr r)
      show ?thesis
      proof (cases r)
        case None
        then have "fit_loop c rows (s, ?fits) = ((s', fits'), e)"
          using Cons.prems unc Inr by (simp add: Let_def)
        from Cons.IH[OF this] show ?thesis .
      next
        case (Some f)
        let ?s = "s\<lparr>K_\<sigma>_daily_smile_func := (K_\<sigma>_daily_smile_func s)(?d \<mapsto> f)\<rparr>"
        have "fit_loop c rows (?s, ?fits) = ((s', fits'), e)"
          using Cons.prems unc Inr Some by (simp add: Let_def)
        from Cons.IH[OF this]
        have a: "s'\<lparr>K_\<sigma>_daily_smile_func := K_\<sigma>_daily_smile_func ?s\<rparr> = ?s"
          and b: "K_\<sigma>_daily_smile_func ?s \<subseteq>\<^sub>m K_\<sigma>_daily_smile_func s'" by blast+
        have "s'\<lparr>K_\<sigma>_daily_smile_func := K_\<sigma>_daily_smile_func s\<rparr>
               = (s'\<lparr>K_\<sigma>_daily_smile_func := K_\<sigma>_daily_smile_func ?s\<rparr>)\<lparr>K_\<sigma>_daily_smile_func := K_\<sigma>_daily_smile_func s\<rparr>"
          by simp
        also have "\<dots> = s" unfolding a by simp
        finally have a': "s'\<lparr>K_\<sigma>_daily_smile_func := K_\<sigma>_daily_smile_func s\<rparr> = s" .
        have "K_\<sigma>_daily_smile_func s \<subseteq>\<^sub>m K_\<sigma>_daily_smile_func ?s"
          using unc by (auto simp add: map_le_def)
        then have b': "K_\<sigma>_daily_smile_func s \<subseteq>\<^sub>m K_\<sigma>_daily_smile_func s'"
          using b by (rule map_le_trans)
        show ?thesis using a' b' by simp
      qed
    qed
  qed
qed

lemma interp_sigma_surface_frame:
  assumes "interp_\<sigma>_surface c (s, fits) dates K cp = ((s', fits'), r)"
  shows "s'\<lparr>K_\<sigma>_daily_smile_func := K_\<sigma>_daily_smile_func s\<rparr> = s
         \<and> K_\<sigma>_daily_smile_func s \<subseteq>\<^sub>m K_\<sigma>_daily_smile_func s'"
proof (cases "length dates \<noteq> length K \<or> length dates \<noteq> length cp")
  case True
  then show ?thesis using assms by (auto simp: interp_\<sigma>_surface_def)
next
  case len: False
  show ?thesis
  proof (cases "those (map (loc (\<Delta>_\<sigma>_daily s)) dates)")
    case None
    then show ?thesis using assms len by (auto simp: interp_\<sigma>_surface_def)
  next
    case (Some df)
    show ?thesis
    proof (cases "those (map (loc (\<Delta>_\<sigma>_daily s)) (remdups dates))")
      case None
      then show ?thesis using assms len Some by (auto simp: interp_\<sigma>_surface_def)
    next
      case (Some df_unique_dates)
      obtain s1 fits1 e where fl: "fit_loop c df_unique_dates (s, fits) = ((s1, fits1), e)"
        by (metis surj_pair)
      have "s1 = s'" using assms len \<open>those (map (loc (\<Delta>_\<sigma>_daily s)) dates) = Some df\<close> Some fl
        by (auto simp: interp_\<sigma>_surface_def split: option.splits)
      then show ?thesis using fit_loop_frame[OF fl] by simp
    qed
  qed
qed

lemma price_fx_vanilla_european_frame:
  assumes "price_fx_vanilla_european c (s, fits) dates K cp a b = ((s', fits'), r)"
  shows "s'\<lparr>K_\<sigma>_daily_smile_func := K_\<sigma>_daily_smile_func s\<rparr> = s
         \<and> K_\<sigma>_daily_smile_func s \<subseteq>\<^sub>m K_\<sigma>_daily_smile_func s'"
proof (cases "length dates \<noteq> length K \<or> length dates \<noteq> length cp")
  case True
  then show ?thesis using assms by (auto simp: price_fx_vanilla_european_def)
next
  case len: False
  show ?thesis
  proof (cases "list_ex id (map (in_pillar_range (\<sigma>_pillar s)) dates)")
    case False
    then have "s' = s" using assms len
      by (auto simp: price_fx_vanilla_european_def Let_def split: sum.splits)
    then show ?thesis by simp
  next
    case True
    obtain s1 fits1 r1 where i: "interp_\<sigma>_surface c (s, fits)
        (filter (in_pillar_range (\<sigma>_pillar s)) dates) K cp = ((s1, fits1), r1)"
      by (metis surj_pair)
    have "s1 = s'" using assms len True i
      by (auto simp: price_fx_vanilla_european_def Let_def split: sum.splits if_splits)
    then show ?thesis using interp_sigma_surface_frame[OF i] by simp
  qed
qed

lemma interp_sigma_surface_single:
  assumes row: "loc (\<Delta>_\<sigma>_daily s) d = Some row"
  shows "interp_\<sigma>_surface c (s, fits) [d] [K] [cp] =
     (case fit_loop c [row] (s, fits) of
        (st', Some e) \<Rightarrow> (st', Inl e)
      | (st', None) \<Rightarrow> (st', query_loop c (fst st') [(row, K, cp)]))"
  using row by (simp add: interp_\<sigma>_surface_def del: fit_loop.simps query_loop.simps)

lemma demo_in_range [simp]:
  "in_pillar_range (\<sigma>_pillar (demo_surface m)) d \<longleftrightarrow> 10 \<le> d \<and> d \<le> 12"
  by (simp add: in_pillar_range_def demo_surface_def demo_pillars_def)

lemma demo_loc [simp]:
  "loc (\<Delta>_\<sigma>_daily (demo_surface m)) 11 = Some (demo_row 11)"
  by (simp add: loc_def demo_surface_def demo_row_def)

lemma demo_fields [simp]:
  "smile_interpolation_method (demo_surface m) = m"
  "K_\<sigma>_daily_smile_func (demo_surface m) = Map.empty"
  "fx_spot_rate (demo_surface m) = Fin (66 / 100)"
  by (simp_all add: demo_surface_def)

lemma demo_heston_SSE [simp]:
  "SSE (heston_fit_vanilla_fx_smile (demo_collaborators sse) \<Delta> conv \<sigma> S r_f r_d tau cp m) = sse"
  by (simp add: demo_collaborators_def)

lemma demo_loc_all [simp]:
  "loc (\<Delta>_\<sigma>_daily (demo_surface m)) 10 = Some (demo_row 10)"
  "loc (\<Delta>_\<sigma>_daily (demo_surface m)) 12 = Some (demo_row 12)"
  by (simp_all add: loc_def demo_surface_def demo_row_def)

lemma demo_interp_cubic:
  "interp_\<sigma>_surface (demo_collaborators sse) (demo_surface (Some cubic_spline), [])
     [11] [Fin (7 / 10)] [Fin 1]
   = (((demo_surface (Some cubic_spline))
         \<lparr>K_\<sigma>_daily_smile_func :=
            [11 \<mapsto> CubicSpline [Fin (6 / 10), Fin (66 / 100), Fin (7 / 10)]
                                 [Fin (1 / 10), Fin (1 / 10), Fin (1 / 10)]]\<rparr>, [11]),
      Inr [Fin (1 / 10)])"
  by (simp add: interp_sigma_surface_single fit_smile_def fit_computed_def implied_\<sigma>_def Let_def
      demo_row_def demo_collaborators_def)

lemma demo_price_cubic:
  "price_fx_vanilla_european (demo_collaborators sse) (demo_surface (Some cubic_spline), [])
     [11] [Fin (7 / 10)] [Fin 1] False False
   = (((demo_surface (Some cubic_spline))
         \<lparr>K_\<sigma>_daily_smile_func :=
            [11 \<mapsto> CubicSpline [Fin (6 / 10), Fin (66 / 100), Fin (7 / 10)]
                                 [Fin (1 / 10), Fin (1 / 10), Fin (1 / 10)]]\<rparr>, [11]),
      Inr \<lparr>gk_results = [(''option_value'', [Fin (1 / 10)])],
           market_data_inputs =
             ([Fin (1 / 10)], [Fin (3 / 100)], [Fin (5 / 100)], [Fin (66 / 100)])\<rparr>)"
  by (simp add: price_fx_vanilla_european_def demo_interp_cubic Let_def)
     (simp add: demo_collaborators_def)

subsection \<open>A pricing batch with dates inside and outside the pillar range\<close>

text \<open>
  A batch with every date outside the pillar range skips the interpolation and is priced
  with not-a-number volatilities.
\<close>

lemma price_all_outside:
  assumes len: "length dates = length K" "length dates = length cp"
    and out: "\<forall>d\<in>set dates. \<not> in_pillar_range (\<sigma>_pillar s) d"
  shows "\<exists>res. price_fx_vanilla_european c (s, fits) dates K cp a b = ((s, fits), Inr res)
          \<and> fst (market_data_inputs res) = replicate (length dates) NaN"
proof -
  have "\<not> list_ex id (map (in_pillar_range (\<sigma>_pillar s)) dates)"
    using out by (auto simp: list_ex_iff)
  then show ?thesis using len by (simp add: price_fx_vanilla_european_def Let_def)
qed


text \<open>
  C1. The claim (a batch with at least one but not all expiry dates outside the pillar
  range does not raise; the entries in range are priced) does not hold of the code: line
  473 gives \<open>interp_\<sigma>_surface\<close> the dates inside the range together with the whole of
  \<open>K\<close> and \<open>cp\<close>, whose shapes then differ from that of the dates, and the assertion of
  line 373 fails. Every such batch raises \<open>AssertionError\<close> and leaves the surface as it
  was.
\<close>

theorem price_partial_batch_raises:
  assumes len: "length dates = length K" "length dates = length cp"
    and inr: "\<exists>d\<in>set dates. in_pillar_range (\<sigma>_pillar s) d"
    and out: "\<exists>d\<in>set dates. \<not> in_pillar_range (\<sigma>_pillar s) d"
  shows "price_fx_vanilla_european c (s, fits) dates K cp a b = ((s, fits), Inl AssertionError)"
proof -
  have any: "list_ex id (map (in_pillar_range (\<sigma>_pillar s)) dates)"
    using inr by (auto simp: list_ex_iff)
  have "length (filter (in_pillar_range (\<sigma>_pillar s)) dates) < length dates"
    using out by (auto intro: length_filter_less)
  then have "length (filter (in_pillar_range (\<sigma>_pillar s)) dates) \<noteq> length K"
    using len by simp
  then have "interp_\<sigma>_surface c (s, fits) (filter (in_pillar_range (\<sigma>_pillar s)) dates) K cp
               = ((s, fits), Inl AssertionError)"
    by (simp add: interp_\<sigma>_surface_def)
  then show ?thesis using len any by (simp add: price_fx_vanilla_european_def Let_def)
qed

theorem price_partial_batch_raises_witness:
  "price_fx_vanilla_european (demo_collaborators (Fin 0)) (demo_surface (Some cubic_spline), [])
     [10, 11, 13] [Fin (6 / 10), Fin (65 / 100), Fin (7 / 10)] [Fin 1, Fin 1, Fin 1] False False
   = ((demo_surface (Some cubic_spline), []), Inl AssertionError)"
  by (rule price_partial_batch_raises) simp_all

subsection \<open>What a query changes\<close>

text \<open>
  C9. \<open>interp_\<sigma>_surface\<close> and \<open>price_fx_vanilla_european\<close>, whether they return or
  raise, leave every field of the surface as it was except \<open>K_\<sigma>_daily_smile_func\<close>: in
  particular the pillar tables, the daily grid, the forward curve and the spot rate. The
  cache keeps every entry it had and may gain entries.
\<close>

theorem queries_change_only_the_cache:
  "(interp_\<sigma>_surface c (s, fits) dates K cp = ((s', fits'), r) \<longrightarrow>
      s'\<lparr>K_\<sigma>_daily_smile_func := K_\<sigma>_daily_smile_func s\<rparr> = s
      \<and> \<sigma>_pillar s' = \<sigma>_pillar s \<and> K_pillar s' = K_pillar s \<and> \<Delta>_\<sigma>_daily s' = \<Delta>_\<sigma>_daily s
      \<and> fx_forward_curve s' = fx_forward_curve s \<and> fx_spot_rate s' = fx_spot_rate s
      \<and> K_\<sigma>_daily_smile_func s \<subseteq>\<^sub>m K_\<sigma>_daily_smile_func s')
   \<and> (price_fx_vanilla_european c (s, fits) dates K cp a b = ((s'', fits''), r') \<longrightarrow>
      s''\<lparr>K_\<sigma>_daily_smile_func := K_\<sigma>_daily_smile_func s\<rparr> = s
      \<and> \<sigma>_pillar s'' = \<sigma>_pillar s \<and> K_pillar s'' = K_pillar s \<and> \<Delta>_\<sigma>_daily s'' = \<Delta>_\<sigma>_daily s
      \<and> fx_forward_curve s'' = fx_forward_curve s \<and> fx_spot_rate s'' = fx_spot_rate s
      \<and> K_\<sigma>_daily_smile_func s \<subseteq>\<^sub>m K_\<sigma>_daily_smile_func s'')"
proof (intro conjI impI)
  assume i: "interp_\<sigma>_surface c (s, fits) dates K cp = ((s', fits'), r)"
  note f = interp_sigma_surface_frame[OF i]
  from f show e: "s'\<lparr>K_\<sigma>_daily_smile_func := K_\<sigma>_daily_smile_func s\<rparr> = s" by simp
  from f show "K_\<sigma>_daily_smile_func s \<subseteq>\<^sub>m K_\<sigma>_daily_smile_func s'" by simp
  show "\<sigma>_pillar s' = \<sigma>_pillar s" using arg_cong[OF e, of \<sigma>_pillar] by simp
  show "K_pillar s' = K_pillar s" using arg_cong[OF e, of K_pillar] by simp
  show "\<Delta>_\<sigma>_daily s' = \<Delta>_\<sigma>_daily s" using arg_cong[OF e, of \<Delta>_\<sigma>_daily] by simp
  show "fx_forward_curve s' = fx_forward_curve s" using arg_cong[OF e, of fx_forward_curve] by simp
  show "fx_spot_rate s' = fx_spot_rate s" using arg_cong[OF e, of fx_spot_rate] by simp
next
  assume p: "price_fx_vanilla_european c (s, fits) dates K cp a b = ((s'', fits''), r')"
  note f = price_fx_vanilla_european_frame[OF p]
  from f show e: "s''\<lparr>K_\<sigma>_daily_smile_func := K_\<sigma>_daily_smile_func s\<rparr> = s" by simp
  from f show "K_\<sigma>_daily_smile_func s \<subseteq>\<^sub>m K_\<sigma>_daily_smile_func s''" by simp
  show "\<sigma>_pillar s'' = \<sigma>_pillar s" using arg_cong[OF e, of \<sigma>_pillar] by simp
  show "K_pillar s'' = K_pillar s" using arg_cong[OF e, of K_pillar] by simp
  show "\<Delta>_\<sigma>_daily s'' = \<Delta>_\<sigma>_daily s" using arg_cong[OF e, of \<Delta>_\<sigma>_daily] by simp
  show "fx_forward_curve s'' = fx_forward_curve s" using arg_cong[OF e, of fx_forward_curve] by simp
  show "fx_spot_rate s'' = fx_spot_rate s" using arg_cong[OF e, of fx_spot_rate] by simp
qed

theorem queries_change_only_the_cache_witness:
  "(\<exists>s' fits' r. interp_\<sigma>_surface (demo_collaborators (Fin 0))
        (demo_surface (Some cubic_spline), []) [11] [Fin (7 / 10)] [Fin 1] = ((s', fits'), r)
      \<and> \<sigma>_pillar s' = demo_pillars \<and> \<Delta>_\<sigma>_daily s' = [demo_row 10, demo_row 11, demo_row 12]
      \<and> K_\<sigma>_daily_smile_func s' 11 \<noteq> None)
   \<and> (\<exists>s' fits' r. price_fx_vanilla_european (demo_collaborators (Fin 0))
        (demo_surface (Some cubic_spline), []) [11] [Fin (7 / 10)] [Fin 1] False False
          = ((s', fits'), r)
      \<and> \<sigma>_pillar s' = demo_pillars \<and> \<Delta>_\<sigma>_daily s' = [demo_row 10, demo_row 11, demo_row 12]
      \<and> K_\<sigma>_daily_smile_func s' 11 \<noteq> None)"
proof -
  let ?c = "demo_collaborators (Fin 0)" and ?s = "demo_surface (Some cubic_spline)"
  let ?s' = "?s\<lparr>K_\<sigma>_daily_smile_func :=
            [11 \<mapsto> CubicSpline [Fin (6 / 10), Fin (66 / 100), Fin (7 / 10)]
                                 [Fin (1 / 10), Fin (1 / 10), Fin (1 / 10)]]\<rparr>"
  note th = queries_change_only_the_cache [of ?c ?s "[]" "[11]" "[Fin (7 / 10)]" "[Fin 1]"
      ?s' "[11]" "Inr [Fin (1 / 10)]" False False ?s' "[11]", unfolded demo_interp_cubic
      demo_price_cubic]
  have a: "\<sigma>_pillar ?s' = demo_pillars \<and> \<Delta>_\<sigma>_daily ?s' = [demo_row 10, demo_row 11, demo_row 12]"
    using th by (simp add: demo_surface_def)
  have b: "K_\<sigma>_daily_smile_func ?s' 11 \<noteq> None" by simp
  show ?thesis using a b demo_interp_cubic[of "Fin 0"] demo_price_cubic[of "Fin 0"] by blast
qed

subsection \<open>The cache over a sequence of queries\<close>

lemma fit_loop_log:
  "fit_loop c rows (s, fits) = ((s', fits'), e) \<Longrightarrow>
     \<exists>new. fits' = fits @ new \<and> (\<forall>d\<in>set new. K_\<sigma>_daily_smile_func s d = None)"
proof (induction rows arbitrary: s fits)
  case Nil
  then show ?case by simp
next
  case (Cons row rows)
  let ?d = "daily_tenor_date row"
  show ?case
  proof (cases "K_\<sigma>_daily_smile_func s ?d \<noteq> None")
    case True
    then have "fit_loop c rows (s, fits) = ((s', fits'), e)" using Cons.prems by (simp add: Let_def)
    from Cons.IH[OF this] show ?thesis .
  next
    case unc: False
    let ?fits = "if fit_computed s then fits @ [?d] else fits"
    have fits: "\<exists>n. ?fits = fits @ n \<and> (\<forall>d\<in>set n. K_\<sigma>_daily_smile_func s d = None)"
      using unc by auto
    show ?thesis
    proof (cases "fit_smile c s row")
      case (Inl err)
      then have "fits' = ?fits" using Cons.prems unc by (auto simp add: Let_def)
      then show ?thesis using fits by simp
    next
      case (Inr r)
      show ?thesis
      proof (cases r)
        case None
        then have "fit_loop c rows (s, ?fits) = ((s', fits'), e)"
          using Cons.prems unc Inr by (simp add: Let_def)
        from Cons.IH[OF this] obtain n2 where n2: "fits' = ?fits @ n2"
          "\<forall>d\<in>set n2. K_\<sigma>_daily_smile_func s d = None" by blast
        from fits obtain n1 where n1: "?fits = fits @ n1"
          "\<forall>d\<in>set n1. K_\<sigma>_daily_smile_func s d = None" by blast
        have "fits' = fits @ (n1 @ n2)" using n1(1) n2(1) by simp
        moreover have "\<forall>d\<in>set (n1 @ n2). K_\<sigma>_daily_smile_func s d = None"
          using n1(2) n2(2) by auto
        ultimately show ?thesis by blast
      next
        case (Some f)
        let ?s = "s\<lparr>K_\<sigma>_daily_smile_func := (K_\<sigma>_daily_smile_func s)(?d \<mapsto> f)\<rparr>"
        have "fit_loop c rows (?s, ?fits) = ((s', fits'), e)"
          using Cons.prems unc Inr Some by (simp add: Let_def)
        from Cons.IH[OF this] obtain n2 where n2: "fits' = ?fits @ n2"
          "\<forall>d\<in>set n2. K_\<sigma>_daily_smile_func ?s d = None" by blast
        from fits obtain n1 where n1: "?fits = fits @ n1"
          "\<forall>d\<in>set n1. K_\<sigma>_daily_smile_func s d = None" by blast
        have "\<forall>d\<in>set n2. K_\<sigma>_daily_smile_func s d = None"
          using n2(2) by (auto split: if_splits)
        then have "\<forall>d\<in>set (n1 @ n2). K_\<sigma>_daily_smile_func s d = None"
          using n1(2) by auto
        moreover have "fits' = fits @ (n1 @ n2)" using n1(1) n2(1) by simp
        ultimately show ?thesis by blast
      qed
    qed
  qed
qed

lemma fit_loop_caches:
  "fit_loop c rows (s, fits) = ((s', fits'), None) \<Longrightarrow> fit_computed s \<Longrightarrow>
     \<forall>row\<in>set rows. K_\<sigma>_daily_smile_func s' (daily_tenor_date row) \<noteq> None"
proof (induction rows arbitrary: s fits)
  case Nil
  then show ?case by simp
next
  case (Cons row rows)
  let ?d = "daily_tenor_date row"
  show ?case
  proof (cases "K_\<sigma>_daily_smile_func s ?d \<noteq> None")
    case True
    then have fl: "fit_loop c rows (s, fits) = ((s', fits'), None)"
      using Cons.prems by (simp add: Let_def)
    have "K_\<sigma>_daily_smile_func s' ?d \<noteq> None"
      using fit_loop_frame[OF fl] True by (auto simp: map_le_def dom_def)
    then show ?thesis using Cons.IH[OF fl Cons.prems(2)] by simp
  next
    case unc: False
    let ?fits = "if fit_computed s then fits @ [?d] else fits"
    show ?thesis
    proof (cases "fit_smile c s row")
      case (Inl err)
      then show ?thesis using Cons.prems unc by (simp add: Let_def)
    next
      case (Inr r)
      show ?thesis
      proof (cases r)
        case None
        then show ?thesis using fit_smile_None_not_computed[of c s row] Inr Cons.prems(2) by simp
      next
        case (Some f)
        let ?s = "s\<lparr>K_\<sigma>_daily_smile_func := (K_\<sigma>_daily_smile_func s)(?d \<mapsto> f)\<rparr>"
        have fl: "fit_loop c rows (?s, ?fits) = ((s', fits'), None)"
          using Cons.prems unc Inr Some by (simp add: Let_def)
        have "K_\<sigma>_daily_smile_func s' ?d \<noteq> None"
          using fit_loop_frame[OF fl] by (auto simp: map_le_def dom_def)
        moreover have "fit_computed ?s" using Cons.prems(2) by simp
        ultimately show ?thesis using Cons.IH[OF fl] by simp
      qed
    qed
  qed
qed

lemma fit_invariant_I:
  assumes "\<And>d. K_\<sigma>_daily_smile_func s d \<noteq> None \<Longrightarrow> count_list fits d = 1"
    and "\<And>d. d \<in> set fits \<Longrightarrow> K_\<sigma>_daily_smile_func s d = None \<Longrightarrow>
           \<exists>row e. loc (\<Delta>_\<sigma>_daily s) d = Some row \<and> fit_smile c s row = Inl e"
  shows "fit_invariant c (s, fits)"
  using assms by (simp add: fit_invariant_def)

lemma fit_invariant_cached:
  "fit_invariant c (s, fits) \<Longrightarrow> K_\<sigma>_daily_smile_func s d \<noteq> None \<Longrightarrow> count_list fits d = 1"
  by (simp add: fit_invariant_def)

lemma fit_invariant_uncached:
  "fit_invariant c (s, fits) \<Longrightarrow> d \<in> set fits \<Longrightarrow> K_\<sigma>_daily_smile_func s d = None \<Longrightarrow>
     \<exists>row e. loc (\<Delta>_\<sigma>_daily s) d = Some row \<and> fit_smile c s row = Inl e"
  by (simp add: fit_invariant_def)

lemma count_list_snoc: "count_list (xs @ [y]) x = count_list xs x + (if x = y then 1 else 0)"
  by (induction xs) auto

lemma fit_loop_invariant:
  assumes "fit_invariant c (s, fits)"
    and "\<forall>row\<in>set rows. loc (\<Delta>_\<sigma>_daily s) (daily_tenor_date row) = Some row"
    and "fit_loop c rows (s, fits) = (st', e)"
  shows "fit_invariant c st'"
  using assms
proof (induction rows arbitrary: s fits)
  case Nil
  then show ?case by simp
next
  case (Cons row rows)
  let ?d = "daily_tenor_date row"
  have rows: "\<forall>r\<in>set rows. loc (\<Delta>_\<sigma>_daily s) (daily_tenor_date r) = Some r"
    and row: "loc (\<Delta>_\<sigma>_daily s) ?d = Some row"
    using Cons.prems(2) by simp_all
  show ?case
  proof (cases "K_\<sigma>_daily_smile_func s ?d \<noteq> None")
    case True
    then have "fit_loop c rows (s, fits) = (st', e)" using Cons.prems(3) by (simp add: Let_def)
    from Cons.IH[OF Cons.prems(1) rows this] show ?thesis .
  next
    case unc: False
    then have unc': "K_\<sigma>_daily_smile_func s ?d = None" by simp
    let ?fits = "if fit_computed s then fits @ [?d] else fits"
    show ?thesis
    proof (cases "fit_smile c s row")
      case (Inl err)
      then have st': "st' = (s, ?fits)" using Cons.prems(3) unc by (auto simp add: Let_def)
      have "fit_invariant c (s, ?fits)"
      proof (rule fit_invariant_I)
        fix d assume c: "K_\<sigma>_daily_smile_func s d \<noteq> None"
        then have "d \<noteq> ?d" using unc' by auto
        then show "count_list ?fits d = 1"
          using fit_invariant_cached[OF Cons.prems(1) c] by (simp add: count_list_snoc)
      next
        fix d assume d: "d \<in> set ?fits" "K_\<sigma>_daily_smile_func s d = None"
        show "\<exists>row e. loc (\<Delta>_\<sigma>_daily s) d = Some row \<and> fit_smile c s row = Inl e"
        proof (cases "d = ?d")
          case True
          then show ?thesis using row Inl by blast
        next
          case False
          then have "d \<in> set fits" using d(1) by (auto split: if_splits)
          then show ?thesis using fit_invariant_uncached[OF Cons.prems(1) _ d(2)] by blast
        qed
      qed
      then show ?thesis by (simp add: st')
    next
      case (Inr r)
      show ?thesis
      proof (cases r)
        case None
        then have nc: "\<not> fit_computed s" using fit_smile_None_not_computed Inr by blast
        have "fit_loop c rows (s, fits) = (st', e)"
          using Cons.prems(3) unc Inr None nc by (simp add: Let_def)
        from Cons.IH[OF Cons.prems(1) rows this] show ?thesis .
      next
        case (Some f)
        let ?s = "s\<lparr>K_\<sigma>_daily_smile_func := (K_\<sigma>_daily_smile_func s)(?d \<mapsto> f)\<rparr>"
        have fc: "fit_computed s" using fit_smile_Some_computed Inr Some by blast
        have fl: "fit_loop c rows (?s, fits @ [?d]) = (st', e)"
          using Cons.prems(3) unc Inr Some fc by (simp add: Let_def)
        have notin: "?d \<notin> set fits"
        proof
          assume "?d \<in> set fits"
          from fit_invariant_uncached[OF Cons.prems(1) this unc']
          obtain row' e' where "loc (\<Delta>_\<sigma>_daily s) ?d = Some row'" "fit_smile c s row' = Inl e'"
            by blast
          then show False using row Inr by simp
        qed
        have inv: "fit_invariant c (?s, fits @ [?d])"
        proof (rule fit_invariant_I)
          fix d assume c: "K_\<sigma>_daily_smile_func ?s d \<noteq> None"
          show "count_list (fits @ [?d]) d = 1"
          proof (cases "d = ?d")
            case True
            then show ?thesis using notin by (simp add: count_list_snoc count_list_0_iff)
          next
            case False
            then have "K_\<sigma>_daily_smile_func s d \<noteq> None" using c by simp
            from fit_invariant_cached[OF Cons.prems(1) this] False
            show ?thesis by (simp add: count_list_snoc)
          qed
        next
          fix d assume d: "d \<in> set (fits @ [?d])" "K_\<sigma>_daily_smile_func ?s d = None"
          then have ne: "d \<noteq> ?d" by auto
          then have "d \<in> set fits" "K_\<sigma>_daily_smile_func s d = None" using d by auto
          from fit_invariant_uncached[OF Cons.prems(1) this]
          show "\<exists>row e. loc (\<Delta>_\<sigma>_daily ?s) d = Some row \<and> fit_smile c ?s row = Inl e"
            by simp
        qed
        have rows': "\<forall>r\<in>set rows. loc (\<Delta>_\<sigma>_daily ?s) (daily_tenor_date r) = Some r"
          using rows by simp
        from Cons.IH[OF inv rows' fl] show ?thesis .
      qed
    qed
  qed
qed

lemma those_loc_rows:
  assumes "those (map (loc df) ds) = Some rows"
  shows "\<forall>row\<in>set rows. loc df (daily_tenor_date row) = Some row"
    and "daily_tenor_date ` set rows = set ds"
proof -
  from those_map_SomeD[OF assms]
  have l: "length rows = length ds" and n: "\<And>i. i < length ds \<Longrightarrow> loc df (ds ! i) = Some (rows ! i)"
    by auto
  have dt: "daily_tenor_date (rows ! i) = ds ! i" if "i < length ds" for i
    using loc_SomeD[OF n[OF that]] by simp
  show "\<forall>row\<in>set rows. loc df (daily_tenor_date row) = Some row"
  proof
    fix row assume "row \<in> set rows"
    then obtain i where i: "i < length rows" "rows ! i = row" by (auto simp: in_set_conv_nth)
    then show "loc df (daily_tenor_date row) = Some row" using n[of i] dt[of i] l by auto
  qed
  show "daily_tenor_date ` set rows = set ds"
  proof -
    have "map daily_tenor_date rows = ds"
      using l dt by (intro nth_equalityI) simp_all
    then show ?thesis by (metis set_map)
  qed
qed

lemma interp_sigma_surface_cases:
  assumes "interp_\<sigma>_surface c (s, fits) dates K cp = (st', r)"
  shows "(st' = (s, fits) \<and> (\<exists>e. r = Inl e))
         \<or> (\<exists>rows e. (\<forall>row\<in>set rows. loc (\<Delta>_\<sigma>_daily s) (daily_tenor_date row) = Some row)
                \<and> daily_tenor_date ` set rows = set dates
                \<and> fit_loop c rows (s, fits) = (st', e)
                \<and> (e = None \<or> (\<exists>x. r = Inl x)))"
proof (cases "length dates \<noteq> length K \<or> length dates \<noteq> length cp")
  case True
  then show ?thesis using assms by (auto simp: interp_\<sigma>_surface_def)
next
  case len: False
  show ?thesis
  proof (cases "those (map (loc (\<Delta>_\<sigma>_daily s)) dates)")
    case None
    then show ?thesis using assms len by (auto simp: interp_\<sigma>_surface_def)
  next
    case (Some df)
    show ?thesis
    proof (cases "those (map (loc (\<Delta>_\<sigma>_daily s)) (remdups dates))")
      case None
      then show ?thesis using assms len Some by (auto simp: interp_\<sigma>_surface_def)
    next
      case u: (Some rows)
      obtain st1 e where fl: "fit_loop c rows (s, fits) = (st1, e)" by (metis surj_pair)
      have eq: "interp_\<sigma>_surface c (s, fits) dates K cp =
           (case e of Some x \<Rightarrow> (st1, Inl x)
            | None \<Rightarrow> (st1, query_loop c (fst st1) (zip df (zip K cp))))"
        using len Some u fl by (simp add: interp_\<sigma>_surface_def)
      have a: "st' = st1" and b: "e = None \<or> (\<exists>x. r = Inl x)"
        using assms eq by (auto split: option.splits)
      show ?thesis
        using those_loc_rows[OF u] fl a b by (intro disjI2 exI[of _ rows] exI[of _ e]) simp
    qed
  qed
qed

lemma interp_sigma_surface_invariant:
  assumes "fit_invariant c st"
  shows "fit_invariant c (fst (interp_\<sigma>_surface c st dates K cp))"
proof -
  obtain s fits where st: "st = (s, fits)" by (cases st)
  obtain st' r where i: "interp_\<sigma>_surface c (s, fits) dates K cp = (st', r)" by (metis surj_pair)
  from interp_sigma_surface_cases[OF i] show ?thesis
  proof
    assume "st' = (s, fits) \<and> (\<exists>e. r = Inl e)"
    then show ?thesis using assms st i by simp
  next
    assume "\<exists>rows e. (\<forall>row\<in>set rows. loc (\<Delta>_\<sigma>_daily s) (daily_tenor_date row) = Some row)
                \<and> daily_tenor_date ` set rows = set dates
                \<and> fit_loop c rows (s, fits) = (st', e)
                \<and> (e = None \<or> (\<exists>x. r = Inl x))"
    then obtain rows e where
      "\<forall>row\<in>set rows. loc (\<Delta>_\<sigma>_daily s) (daily_tenor_date row) = Some row"
      "fit_loop c rows (s, fits) = (st', e)" by blast
    from fit_loop_invariant[OF assms[unfolded st] this] show ?thesis using st i by simp
  qed
qed

lemma run_queries_invariant:
  "fit_invariant c st \<Longrightarrow> fit_invariant c (run_queries c st qs)"
proof (induction qs arbitrary: st)
  case Nil
  then show ?case by simp
next
  case (Cons q qs)
  obtain dates K cp where q: "q = (dates, K, cp)" by (cases q)
  show ?case using Cons.IH[OF interp_sigma_surface_invariant[OF Cons.prems]] by (simp add: q)
qed

lemma fit_invariant_initial:
  "K_\<sigma>_daily_smile_func s0 = Map.empty \<Longrightarrow> fit_invariant c (s0, [])"
  by (simp add: fit_invariant_def)

lemma demo_interp_cubic_again:
  "interp_\<sigma>_surface (demo_collaborators sse)
     ((demo_surface (Some cubic_spline))
         \<lparr>K_\<sigma>_daily_smile_func :=
            [11 \<mapsto> CubicSpline [Fin (6 / 10), Fin (66 / 100), Fin (7 / 10)]
                                 [Fin (1 / 10), Fin (1 / 10), Fin (1 / 10)]]\<rparr>, [11])
     [11] [Fin (65 / 100)] [Fin 1]
   = (((demo_surface (Some cubic_spline))
         \<lparr>K_\<sigma>_daily_smile_func :=
            [11 \<mapsto> CubicSpline [Fin (6 / 10), Fin (66 / 100), Fin (7 / 10)]
                                 [Fin (1 / 10), Fin (1 / 10), Fin (1 / 10)]]\<rparr>, [11]),
      Inr [Fin (1 / 10)])"
  by (simp add: interp_\<sigma>_surface_def loc_def demo_surface_def implied_\<sigma>_def Let_def
      demo_row_def demo_collaborators_def)

lemma fit_loop_new_entry:
  "fit_loop c rows (s, fits) = ((s', fits'), e) \<Longrightarrow>
   K_\<sigma>_daily_smile_func s d = None \<Longrightarrow> K_\<sigma>_daily_smile_func s' d = Some f \<Longrightarrow>
     \<exists>row\<in>set rows. daily_tenor_date row = d \<and> fit_smile c s row = Inr (Some f)"
proof (induction rows arbitrary: s fits)
  case Nil
  then show ?case by simp
next
  case (Cons row rows)
  let ?d = "daily_tenor_date row"
  show ?case
  proof (cases "K_\<sigma>_daily_smile_func s ?d \<noteq> None")
    case True
    then have "fit_loop c rows (s, fits) = ((s', fits'), e)" using Cons.prems by (simp add: Let_def)
    from Cons.IH[OF this Cons.prems(2,3)] show ?thesis by auto
  next
    case unc: False
    let ?fits = "if fit_computed s then fits @ [?d] else fits"
    show ?thesis
    proof (cases "fit_smile c s row")
      case (Inl err)
      then have "s' = s" using Cons.prems(1) unc by (auto simp add: Let_def)
      then show ?thesis using Cons.prems(2,3) by simp
    next
      case (Inr r)
      show ?thesis
      proof (cases r)
        case None
        then have "fit_loop c rows (s, ?fits) = ((s', fits'), e)"
          using Cons.prems unc Inr by (simp add: Let_def)
        from Cons.IH[OF this Cons.prems(2,3)] show ?thesis by auto
      next
        case (Some g)
        let ?s = "s\<lparr>K_\<sigma>_daily_smile_func := (K_\<sigma>_daily_smile_func s)(?d \<mapsto> g)\<rparr>"
        have fl: "fit_loop c rows (?s, ?fits) = ((s', fits'), e)"
          using Cons.prems unc Inr Some by (simp add: Let_def)
        show ?thesis
        proof (cases "d = ?d")
          case True
          have "K_\<sigma>_daily_smile_func ?s \<subseteq>\<^sub>m K_\<sigma>_daily_smile_func s'"
            using fit_loop_frame[OF fl] by simp
          then have "K_\<sigma>_daily_smile_func s' ?d = Some g"
            by (auto simp: map_le_def dom_def)
          then have "g = f" using Cons.prems(3) True by simp
          then show ?thesis using Inr Some True by simp
        next
          case False
          then have "K_\<sigma>_daily_smile_func ?s d = None" using Cons.prems(2) by simp
          from Cons.IH[OF fl this Cons.prems(3)] show ?thesis by auto
        qed
      qed
    qed
  qed
qed

lemma rejected_date_aborts:
  assumes row: "loc (\<Delta>_\<sigma>_daily s) d = Some row"
    and unc: "K_\<sigma>_daily_smile_func s d = None"
    and rej: "fit_smile c s row = Inl err" and fc: "fit_computed s"
    and d: "d \<in> set dates"
  shows "\<exists>st' e. interp_\<sigma>_surface c (s, fits) dates K cp = (st', Inl e)"
proof -
  obtain st' r where i: "interp_\<sigma>_surface c (s, fits) dates K cp = (st', r)" by (metis surj_pair)
  obtain s' fits' where st': "st' = (s', fits')" by (cases st')
  have "\<exists>e. r = Inl e"
  proof (rule ccontr)
    assume n: "\<nexists>e. r = Inl e"
    with interp_sigma_surface_cases[OF i]
    obtain rows where rows: "\<forall>row\<in>set rows. loc (\<Delta>_\<sigma>_daily s) (daily_tenor_date row) = Some row"
      "daily_tenor_date ` set rows = set dates"
      and fl: "fit_loop c rows (s, fits) = ((s', fits'), None)"
      using st' by auto
    have "d \<in> daily_tenor_date ` set rows" using rows(2) d by simp
    then obtain r0 where r0: "r0 \<in> set rows" "daily_tenor_date r0 = d" by (auto simp: image_iff)
    then have "K_\<sigma>_daily_smile_func s' d \<noteq> None" using fit_loop_caches[OF fl fc] by auto
    then obtain f where "K_\<sigma>_daily_smile_func s' d = Some f" by auto
    from fit_loop_new_entry[OF fl unc this]
    obtain r1 where r1: "r1 \<in> set rows" "daily_tenor_date r1 = d" "fit_smile c s r1 = Inr (Some f)"
      by blast
    have "r1 = row" using rows(1) r1(1,2) row by auto
    then show False using r1(3) rej by simp
  qed
  then show ?thesis using i by auto
qed

subsection \<open>Acceptance of a Heston calibration\<close>

text \<open>
  C3, as stated (a calibration is rejected if and only if its SSE exceeds 0.001), fails at
  an SSE equal to the threshold: it does not exceed 0.001, and the query raises.
\<close>

theorem heston_fit_threshold_counterexample:
  "interp_\<sigma>_surface (demo_collaborators (Fin (1 / 1000)))
      (demo_surface (Some heston_analytical_1993), []) [11] [Fin (7 / 10)] [Fin 1]
     = ((demo_surface (Some heston_analytical_1993), [11]),
        Inl (PoorHestonFit (Fin (1 / 1000)) 11))
   \<and> \<not> np_lt (Fin (1 / 1000)) (Fin (1 / 1000))"
  by (simp add: interp_sigma_surface_single fit_smile_def fit_computed_def is_heston_def Let_def
      demo_row_def)

text \<open>
  C3, amended. Under a Heston method, a query at a date of the grid that is not yet in the
  cache calibrates once and accepts the fit if and only if \<open>SSE < 0.001\<close>: an accepted
  fit is stored in the cache under the date and the query returns the implied volatility;
  otherwise (an SSE of 0.001 or more, or not-a-number) the call raises the error that
  carries the SSE and the date, returns no volatility, stores nothing and does not
  calibrate again; and every batch that holds such a date raises, whatever its other
  entries are.
\<close>

theorem heston_fit_acceptance:
  assumes m: "smile_interpolation_method s = Some m" "is_heston m"
    and row: "loc (\<Delta>_\<sigma>_daily s) d = Some row"
    and unc: "K_\<sigma>_daily_smile_func s d = None"
    and fit: "fit = heston_fit_vanilla_fx_smile c [- (25 / 100), 5 / 10, 25 / 100]
                 (daily_\<Delta>_convention row) (daily_\<sigma> row) (fx_spot_rate s)
                 (foreign_ccy_continuously_compounded_zero_rate row)
                 (domestic_ccy_continuously_compounded_zero_rate row)
                 (daily_tenor_years row) [- 1, 1, 1] m"
  shows "(np_lt (SSE fit) (Fin (1 / 1000)) \<longrightarrow>
            (\<exists>v. interp_\<sigma>_surface c (s, fits) [d] [K] [cp] =
               ((s\<lparr>K_\<sigma>_daily_smile_func := (K_\<sigma>_daily_smile_func s)(d \<mapsto> HestonFit fit)\<rparr>,
                 fits @ [d]), Inr [v])))
         \<and> (\<not> np_lt (SSE fit) (Fin (1 / 1000)) \<longrightarrow>
            interp_\<sigma>_surface c (s, fits) [d] [K] [cp] =
              ((s, fits @ [d]), Inl (PoorHestonFit (SSE fit) d))
            \<and> (\<forall>dates Ks cps. d \<in> set dates \<longrightarrow>
                  (\<exists>st' e. interp_\<sigma>_surface c (s, fits) dates Ks cps = (st', Inl e))))"
proof -
  have d: "daily_tenor_date row = d" using loc_SomeD[OF row] by simp
  have nsp: "m \<noteq> univariate_spline" "m \<noteq> cubic_spline"
    using m(2) by (auto simp: is_heston_def)
  have fc: "fit_computed s" using m by (simp add: fit_computed_def)
  have fs: "fit_smile c s row =
      (if np_lt (SSE fit) (Fin (1 / 1000)) then Inr (Some (HestonFit fit))
       else Inl (PoorHestonFit (SSE fit) d))"
    using m nsp d by (simp add: fit_smile_def fit Let_def)
  show ?thesis
  proof (intro conjI impI)
    assume acc: "np_lt (SSE fit) (Fin (1 / 1000))"
    let ?s = "s\<lparr>K_\<sigma>_daily_smile_func := (K_\<sigma>_daily_smile_func s)(d \<mapsto> HestonFit fit)\<rparr>"
    have fl: "fit_loop c [row] (s, fits) = ((?s, fits @ [d]), None)"
      using unc d fs acc fc by (simp add: Let_def)
    have "\<exists>v. implied_\<sigma> c ?s (row, K, cp) = Inr (Some v)"
      using m nsp d by (simp add: implied_\<sigma>_def Let_def)
    then obtain v where "query_loop c ?s [(row, K, cp)] = Inr [v]" by auto
    then show "\<exists>v. interp_\<sigma>_surface c (s, fits) [d] [K] [cp] = ((?s, fits @ [d]), Inr [v])"
      by (simp add: interp_sigma_surface_single[OF row] fl del: fit_loop.simps query_loop.simps)
  next
    assume rej: "\<not> np_lt (SSE fit) (Fin (1 / 1000))"
    have fl: "fit_loop c [row] (s, fits) = ((s, fits @ [d]), Some (PoorHestonFit (SSE fit) d))"
      using unc d fs rej fc by (simp add: Let_def)
    show "interp_\<sigma>_surface c (s, fits) [d] [K] [cp] =
              ((s, fits @ [d]), Inl (PoorHestonFit (SSE fit) d))"
      by (simp add: interp_sigma_surface_single[OF row] fl del: fit_loop.simps query_loop.simps)
    have "fit_smile c s row = Inl (PoorHestonFit (SSE fit) d)" using fs rej by simp
    from rejected_date_aborts[OF row unc this fc]
    show "\<forall>dates Ks cps. d \<in> set dates \<longrightarrow>
            (\<exists>st' e. interp_\<sigma>_surface c (s, fits) dates Ks cps = (st', Inl e))"
      by blast
  qed
qed

theorem heston_fit_acceptance_witness:
  "(\<exists>v s' f. interp_\<sigma>_surface (demo_collaborators (Fin (1 / 2000)))
            (demo_surface (Some heston_analytical_1993), []) [11] [Fin (7 / 10)] [Fin 1]
          = ((s', [11]), Inr [v])
          \<and> K_\<sigma>_daily_smile_func s' 11 = Some (HestonFit f) \<and> SSE f = Fin (1 / 2000))
   \<and> interp_\<sigma>_surface (demo_collaborators (Fin (1 / 500)))
         (demo_surface (Some heston_analytical_1993), []) [11] [Fin (7 / 10)] [Fin 1]
       = ((demo_surface (Some heston_analytical_1993), [11]),
          Inl (PoorHestonFit (Fin (1 / 500)) 11))"
proof -
  let ?s = "demo_surface (Some heston_analytical_1993)"
  have m: "smile_interpolation_method ?s = Some heston_analytical_1993"
    "is_heston heston_analytical_1993"
    by (simp_all add: is_heston_def)
  have row: "loc (\<Delta>_\<sigma>_daily ?s) 11 = Some (demo_row 11)" by simp
  have unc: "K_\<sigma>_daily_smile_func ?s 11 = None" by simp
  note a = heston_fit_acceptance [OF m row unc refl, of "demo_collaborators (Fin (1 / 2000))"
      "[]" "Fin (7 / 10)" "Fin 1"]
  note b = heston_fit_acceptance [OF m row unc refl, of "demo_collaborators (Fin (1 / 500))"
      "[]" "Fin (7 / 10)" "Fin 1"]
  have "\<exists>v s' f. interp_\<sigma>_surface (demo_collaborators (Fin (1 / 2000))) (?s, []) [11]
            [Fin (7 / 10)] [Fin 1] = ((s', [11]), Inr [v])
          \<and> K_\<sigma>_daily_smile_func s' 11 = Some (HestonFit f) \<and> SSE f = Fin (1 / 2000)"
    using a by auto
  moreover have "interp_\<sigma>_surface (demo_collaborators (Fin (1 / 500))) (?s, []) [11]
            [Fin (7 / 10)] [Fin 1]
       = ((?s, [11]), Inl (PoorHestonFit (Fin (1 / 500)) 11))"
    using b by simp
  ultimately show ?thesis by blast
qed

subsection \<open>At most one fit per date\<close>

text \<open>
  C8, as stated (for every expiry date the fit is computed at most once in the lifetime of
  the surface), fails for a date whose Heston calibration is rejected: nothing is cached
  for it, and the next query at that date calibrates again. Two queries at day 11 with an
  SSE of 0.5 compute the fit twice.
\<close>

theorem smile_fit_recomputed_counterexample:
  "run_queries (demo_collaborators (Fin (1 / 2)))
      (demo_surface (Some heston_analytical_1993), [])
      [([11], [Fin (7 / 10)], [Fin 1]), ([11], [Fin (65 / 100)], [Fin 1])]
     = (demo_surface (Some heston_analytical_1993), [11, 11])
   \<and> count_list [11, 11 :: int] 11 = 2"
  by (simp add: interp_sigma_surface_single fit_smile_def fit_computed_def is_heston_def Let_def
      demo_row_def)

text \<open>
  C8, amended. Over any sequence of queries on a surface constructed with an empty cache:
  a date whose fit does not raise (every spline fit, every Heston calibration with
  \<open>SSE < 0.001\<close>) has been fitted at most once, and every cached date exactly once; a
  further query at a cached date leaves its cache entry as it is and computes no fit for
  it, whatever the strikes; and a query under a fitting method that returns has every one
  of its dates in the cache, each fitted exactly once in the lifetime.
\<close>

theorem smile_fit_at_most_once:
  assumes empty: "K_\<sigma>_daily_smile_func s0 = Map.empty"
    and run: "run_queries c (s0, []) qs = (s, fits)"
  shows "(\<forall>d row. loc (\<Delta>_\<sigma>_daily s) d = Some row \<longrightarrow> (\<forall>e. fit_smile c s row \<noteq> Inl e) \<longrightarrow>
            count_list fits d \<le> 1)
         \<and> (\<forall>d. K_\<sigma>_daily_smile_func s d \<noteq> None \<longrightarrow> count_list fits d = 1)
         \<and> (\<forall>dates K cp s' fits' r d f.
               interp_\<sigma>_surface c (s, fits) dates K cp = ((s', fits'), r) \<longrightarrow>
               K_\<sigma>_daily_smile_func s d = Some f \<longrightarrow>
                 K_\<sigma>_daily_smile_func s' d = Some f \<and> count_list fits' d = count_list fits d)
         \<and> (\<forall>dates K cp s' fits' v d.
               interp_\<sigma>_surface c (s, fits) dates K cp = ((s', fits'), Inr v) \<longrightarrow>
               fit_computed s \<longrightarrow> d \<in> set dates \<longrightarrow>
                 K_\<sigma>_daily_smile_func s' d \<noteq> None \<and> count_list fits' d = 1)"
proof (intro conjI allI impI)
  have inv: "fit_invariant c (s, fits)"
    using run_queries_invariant[OF fit_invariant_initial[OF empty], of c qs] run by simp
  {
    fix d row assume row: "loc (\<Delta>_\<sigma>_daily s) d = Some row" and ok: "\<forall>e. fit_smile c s row \<noteq> Inl e"
    show "count_list fits d \<le> 1"
    proof (cases "d \<in> set fits")
      case False
      then show ?thesis by (simp add: count_list_0_iff)
    next
      case True
      show ?thesis
      proof (cases "K_\<sigma>_daily_smile_func s d")
        case None
        from fit_invariant_uncached[OF inv True None] row ok show ?thesis by auto
      next
        case (Some f)
        then show ?thesis using fit_invariant_cached[OF inv, of d] by simp
      qed
    qed
  }
  {
    fix d assume "K_\<sigma>_daily_smile_func s d \<noteq> None"
    then show "count_list fits d = 1" by (rule fit_invariant_cached[OF inv])
  }
  {
    fix dates K cp s' fits' r d f
    assume i: "interp_\<sigma>_surface c (s, fits) dates K cp = ((s', fits'), r)"
      and c: "K_\<sigma>_daily_smile_func s d = Some f"
    show "K_\<sigma>_daily_smile_func s' d = Some f"
      using interp_sigma_surface_frame[OF i] c by (auto simp: map_le_def dom_def)
    from interp_sigma_surface_cases[OF i] show "count_list fits' d = count_list fits d"
    proof
      assume "(s', fits') = (s, fits) \<and> (\<exists>e. r = Inl e)"
      then show ?thesis by simp
    next
      assume "\<exists>rows e. (\<forall>row\<in>set rows. loc (\<Delta>_\<sigma>_daily s) (daily_tenor_date row) = Some row)
                \<and> daily_tenor_date ` set rows = set dates
                \<and> fit_loop c rows (s, fits) = ((s', fits'), e)
                \<and> (e = None \<or> (\<exists>x. r = Inl x))"
      then obtain rows e where "fit_loop c rows (s, fits) = ((s', fits'), e)" by blast
      from fit_loop_log[OF this] obtain new where new: "fits' = fits @ new"
        "\<forall>d\<in>set new. K_\<sigma>_daily_smile_func s d = None" by blast
      have "d \<notin> set new" using new(2) c by auto
      then show ?thesis using new(1) by (simp add: count_list_0_iff)
    qed
  }
  {
    fix dates K cp s' fits' v d
    assume i: "interp_\<sigma>_surface c (s, fits) dates K cp = ((s', fits'), Inr v)"
      and fc: "fit_computed s" and d: "d \<in> set dates"
    from interp_sigma_surface_cases[OF i]
    obtain rows where rows: "daily_tenor_date ` set rows = set dates"
      and fl: "fit_loop c rows (s, fits) = ((s', fits'), None)" by auto
    have "d \<in> daily_tenor_date ` set rows" using rows d by simp
    then obtain row where "row \<in> set rows" "daily_tenor_date row = d" by (auto simp: image_iff)
    then show c: "K_\<sigma>_daily_smile_func s' d \<noteq> None"
      using fit_loop_caches[OF fl fc] by auto
    have "fit_invariant c (s', fits')"
      using interp_sigma_surface_invariant[OF inv, of dates K cp] i by simp
    from fit_invariant_cached[OF this c] show "count_list fits' d = 1" .
  }
qed

theorem smile_fit_at_most_once_witness:
  "\<exists>s1 f. run_queries (demo_collaborators (Fin 0)) (demo_surface (Some cubic_spline), [])
            [([11], [Fin (7 / 10)], [Fin 1])] = (s1, [11])
     \<and> K_\<sigma>_daily_smile_func s1 11 = Some f
     \<and> count_list [11 :: int] 11 = 1
     \<and> interp_\<sigma>_surface (demo_collaborators (Fin 0)) (s1, [11]) [11] [Fin (65 / 100)] [Fin 1]
          = ((s1, [11]), Inr [Fin (1 / 10)])"
proof -
  let ?c = "demo_collaborators (Fin 0)" and ?s = "demo_surface (Some cubic_spline)"
  let ?f = "CubicSpline [Fin (6 / 10), Fin (66 / 100), Fin (7 / 10)]
                                 [Fin (1 / 10), Fin (1 / 10), Fin (1 / 10)]"
  let ?s1 = "?s\<lparr>K_\<sigma>_daily_smile_func := [11 \<mapsto> ?f]\<rparr>"
  have e: "K_\<sigma>_daily_smile_func ?s = Map.empty" by simp
  have run: "run_queries ?c (?s, []) [([11], [Fin (7 / 10)], [Fin 1])] = (?s1, [11])"
    by (simp add: demo_interp_cubic)
  note th = smile_fit_at_most_once [OF e run]
  have c: "K_\<sigma>_daily_smile_func ?s1 11 = Some ?f" by simp
  have "count_list [11 :: int] 11 = 1" using th c by blast
  then show ?thesis using run c demo_interp_cubic_again[of "Fin 0"] by blast
qed

subsection \<open>Path simulation with another method\<close>

text \<open>
  C10. With a \<open>method\<close> other than \<open>'geometric_brownian_motion'\<close> the call of
  \<open>simulate_fx_rate_path\<close> raises nothing and returns \<open>None\<close>, whatever the surface and
  the other arguments are; a call that returns a results dictionary was made with
  \<open>method = 'geometric_brownian_motion'\<close>.
\<close>

theorem simulate_fx_rate_path_other_method:
  "(method \<noteq> ''geometric_brownian_motion'' \<longrightarrow>
      simulate_fx_rate_path c s date_grid nb flag method = Inr None)
   \<and> (simulate_fx_rate_path c s date_grid nb flag method = Inr (Some r) \<longrightarrow>
      method = ''geometric_brownian_motion'')"
  by (simp add: simulate_fx_rate_path_def)

theorem simulate_fx_rate_path_other_method_witness:
  "''heston'' \<noteq> ''geometric_brownian_motion''
   \<and> simulate_fx_rate_path (demo_collaborators (Fin 0)) (demo_surface (Some cubic_spline))
        None None None ''heston'' = Inr None
   \<and> (\<exists>r. simulate_fx_rate_path (demo_collaborators (Fin 0)) (demo_surface (Some cubic_spline))
          None None None ''geometric_brownian_motion'' = Inr (Some r)
        \<and> gbm_forward_atm_volatility r = [NaN, Fin (1 / 10), Fin (1 / 10)]
        \<and> gbm_drift r = [NaN, Fin 0, Fin 0])"
proof -
  have "\<exists>r. simulate_fx_rate_path (demo_collaborators (Fin 0)) (demo_surface (Some cubic_spline))
          None None None ''geometric_brownian_motion'' = Inr (Some r)
        \<and> gbm_forward_atm_volatility r = [NaN, Fin (1 / 10), Fin (1 / 10)]
        \<and> gbm_drift r = [NaN, Fin 0, Fin 0]"
    by (simp add: simulate_fx_rate_path_def Let_def)
       (simp add: demo_surface_def demo_pillars_def demo_collaborators_def \<sigma>_atm_at_def
          in_pillar_range_def loc_def demo_row_def forward_volatility_eq forward_variance_def
          col_col_def mat_col_def mat_mat_def mat_map_def col_any_def mat_any_def np_sub_def
          np_sq_def signed_inf_def Let_def sqrt_one_hundredth)
  then show ?thesis
    using simulate_fx_rate_path_other_method
      [of "''heston''" "demo_collaborators (Fin 0)" "demo_surface (Some cubic_spline)"
          None None None]
    by simp
qed

end
